theory Spec2Isabelle
  imports Main "HOL-Library.Sublist"
begin

section \<open>Identifier model (service-provider.ts)\<close>

text \<open>
  The package is three TypeScript modules: \<^verbatim>\<open>service-provider.ts\<close> (identifiers, catalog,
  registry), \<^verbatim>\<open>with-service-provider.ts\<close> (the middleware that puts the registry into the
  request storage) and \<^verbatim>\<open>with-services.ts\<close> (the resolver and the adapter). Each function
  of the source is one definition here, under its own name. Property names that are not
  names in Isabelle are adapted: \<open>serviceType\<close> is \<^verbatim>\<open>__serviceType\<close>, \<open>entry_name\<close> is
  \<^verbatim>\<open>__name\<close>, \<open>route_method\<close> is \<^verbatim>\<open>method\<close>, \<open>factories\<close> and \<open>catalog_of\<close> are the
  private fields \<^verbatim>\<open>#factories\<close> and \<^verbatim>\<open>#catalog\<close>.

  A plain object used as a record of services is the collection of its own properties
  (prototypes play no part); a \<^verbatim>\<open>Map\<close> is a partial function. Objects that are shared and mutated live in a store
  indexed by address. A \<^verbatim>\<open>throw\<close> is a result \<open>Inl\<close>, and every function that can throw
  returns the state it leaves behind next to it.
\<close>

text \<open>
  A service factory is a zero-argument function \<^verbatim>\<open>() => T\<close>. It may read and write
  whatever it closes over (the tests use a counter), so it is a transformer of an
  outside world \<open>'w\<close> that also returns the service value \<open>'v\<close>. Values of \<open>'v\<close>
  stand for JavaScript values as they are compared by \<^verbatim>\<open>===\<close>. These are the
  factories of the tests and of the documentation: they return, and they leave the instance
  maps alone. Factories that throw or that resolve further services while they run are the
  general factories of the section on factories in general, where the resolver is embedded
  a second time, over them; \<open>resolveService_general_lift\<close> shows that the two embeddings of
  the resolver agree on the factories of this type.
\<close>

type_synonym ('v, 'w) ServiceFactory = "'w \<Rightarrow> 'v \<times> 'w"

text \<open>
  \<^verbatim>\<open>interface ServiceDef<T> { __serviceType?: T }\<close>: the one declared property, which may
  be absent (and is, in what \<^verbatim>\<open>serviceOf\<close> returns).
\<close>

record 'v ServiceDef =
  serviceType :: "'v option"

text \<open>\<^verbatim>\<open>interface CatalogEntry<T> extends ServiceDef<T> { __name: string }\<close>\<close>

record 'v CatalogEntry = "'v ServiceDef" +
  entry_name :: string

text \<open>\<^verbatim>\<open>serviceOf()\<close> returns the empty object.\<close>

definition serviceOf :: "'v ServiceDef" where
  "serviceOf = \<lparr>serviceType = None\<rparr>"

text \<open>
  \<^verbatim>\<open>{ ...catalog[name], __name: name }\<close>: the properties of the definition, then
  \<^verbatim>\<open>__name\<close>. Spreading \<^verbatim>\<open>undefined\<close> contributes no property.
\<close>

definition named_entry :: "'v ServiceDef option \<Rightarrow> string \<Rightarrow> 'v CatalogEntry" where
  "named_entry d nm =
     (case d of
        None \<Rightarrow> \<lparr>serviceType = None, entry_name = nm\<rparr>
      | Some def \<Rightarrow> \<lparr>serviceType = serviceType def, entry_name = nm\<rparr>)"

text \<open>
  The input object of \<^verbatim>\<open>defineCatalog\<close> is the list of its own enumerable properties
  in enumeration order; \<^verbatim>\<open>Object.keys\<close> is the list of the keys and \<^verbatim>\<open>catalog[name]\<close>
  the lookup. An object has every key once: \<open>distinct (Object_keys catalog)\<close>.
\<close>

type_synonym 'v ServiceCatalog = "(string \<times> 'v ServiceDef) list"

text \<open>
  The result object of \<^verbatim>\<open>defineCatalog\<close> starts as \<^verbatim>\<open>{}\<close>: it has no own property and its
  prototype is \<^verbatim>\<open>Object.prototype\<close> (\<open>None\<close> below). The assignment \<^verbatim>\<open>result[name] = value\<close>
  creates or replaces the own property \<open>name\<close>, except for the name \<^verbatim>\<open>__proto__\<close>: a plain
  object inherits the accessor \<^verbatim>\<open>__proto__\<close> from \<^verbatim>\<open>Object.prototype\<close>, the assignment calls
  its setter, and the setter makes the assigned object the prototype of \<open>result\<close> and
  creates no own property.
\<close>

record 'v DefinedCatalog =
  own_entries :: "string \<rightharpoonup> 'v CatalogEntry"
  prototype_entry :: "'v CatalogEntry option"

definition empty_object :: "'v DefinedCatalog" where
  "empty_object = \<lparr>own_entries = Map.empty, prototype_entry = None\<rparr>"

definition assign_entry ::
  "'v DefinedCatalog \<Rightarrow> string \<Rightarrow> 'v CatalogEntry \<Rightarrow> 'v DefinedCatalog" where
  "assign_entry result nm v =
     (if nm = ''__proto__'' then result\<lparr>prototype_entry := Some v\<rparr>
      else result\<lparr>own_entries := (own_entries result)(nm \<mapsto> v)\<rparr>)"

text \<open>\<^verbatim>\<open>Object.keys(result)\<close> as a set: the names of the own properties.\<close>

definition own_keys :: "'v DefinedCatalog \<Rightarrow> string set" where
  "own_keys result = dom (own_entries result)"

definition Object_keys :: "'v ServiceCatalog \<Rightarrow> string list" where
  "Object_keys catalog = map fst catalog"

text \<open>The \<^verbatim>\<open>for (let name of Object.keys(catalog))\<close> loop, \<open>result\<close> being the accumulator.\<close>

fun defineCatalog_loop ::
  "string list \<Rightarrow> 'v ServiceCatalog \<Rightarrow> 'v DefinedCatalog \<Rightarrow> 'v DefinedCatalog" where
  "defineCatalog_loop [] catalog result = result"
| "defineCatalog_loop (nm # names) catalog result =
     defineCatalog_loop names catalog (assign_entry result nm (named_entry (map_of catalog nm) nm))"

definition defineCatalog :: "'v ServiceCatalog \<Rightarrow> 'v DefinedCatalog" where
  "defineCatalog catalog = defineCatalog_loop (Object_keys catalog) catalog empty_object"

text \<open>
  A route as the code reads it: \<^verbatim>\<open>route.method\<close> and \<^verbatim>\<open>route.pattern.source\<close>.
  \<^verbatim>\<open>RequestMethod | 'ANY'\<close> is a union of string literals declared by the router, so the
  method is a string.
\<close>

record RoutePattern =
  source :: string

record Route =
  route_method :: string
  pattern :: RoutePattern

text \<open>
  The two overloads of \<^verbatim>\<open>provide\<close> and \<^verbatim>\<open>resolveService\<close> take a catalog entry, or a
  route and a service name; \<^verbatim>\<open>isCatalogEntry\<close> tells them apart by the \<^verbatim>\<open>__name\<close> property.
\<close>

datatype 'v ServiceIdentifier = CatalogId "'v CatalogEntry" | RouteId Route string

fun isCatalogEntry :: "'v ServiceIdentifier \<Rightarrow> bool" where
  "isCatalogEntry (CatalogId entry) = True"
| "isCatalogEntry (RouteId route serviceName) = False"

text \<open>The template literal \<^verbatim>\<open>`${route.method}:${route.pattern.source}:${serviceName}`\<close>.\<close>

definition composite_key :: "Route \<Rightarrow> string \<Rightarrow> string" where
  "composite_key route serviceName =
     route_method route @ '':'' @ source (pattern route) @ '':'' @ serviceName"

text \<open>The key under which \<^verbatim>\<open>provide\<close> stores and \<^verbatim>\<open>resolveServiceInternal\<close> caches.\<close>

fun canonical_key :: "'v ServiceIdentifier \<Rightarrow> string" where
  "canonical_key (CatalogId entry) = entry_name entry"
| "canonical_key (RouteId route serviceName) = composite_key route serviceName"

section \<open>Registry (class ServiceProvider)\<close>

record ('v, 'w) ServiceProvider =
  factories :: "string \<rightharpoonup> ('v, 'w) ServiceFactory"
  catalog_of :: "'v DefinedCatalog option"

definition new_ServiceProvider :: "'v DefinedCatalog option \<Rightarrow> ('v, 'w) ServiceProvider" where
  "new_ServiceProvider catalog = \<lparr>factories = Map.empty, catalog_of = catalog\<rparr>"

definition provide ::
  "'v ServiceIdentifier \<Rightarrow> ('v, 'w) ServiceFactory \<Rightarrow> ('v, 'w) ServiceProvider \<Rightarrow> ('v, 'w) ServiceProvider" where
  "provide routeOrEntry factoryFn this =
     (case routeOrEntry of
        CatalogId entry \<Rightarrow>
          this\<lparr>factories := (factories this)(entry_name entry \<mapsto> factoryFn)\<rparr>
      | RouteId route serviceName \<Rightarrow>
          (let key = composite_key route serviceName
           in this\<lparr>factories := (factories this)(key \<mapsto> factoryFn)\<rparr>))"

definition getFactory ::
  "('v, 'w) ServiceProvider \<Rightarrow> Route \<Rightarrow> string \<Rightarrow> ('v, 'w) ServiceFactory option" where
  "getFactory this route serviceName =
     (let routeKey = composite_key route serviceName;
          factory = factories this routeKey
      in (case factory of
            None \<Rightarrow> factories this serviceName
          | Some f \<Rightarrow> Some f))"

text \<open>A start-up phase: registrations performed one after another on the same provider.\<close>

fun provide_all ::
  "('v ServiceIdentifier \<times> ('v, 'w) ServiceFactory) list \<Rightarrow> ('v, 'w) ServiceProvider \<Rightarrow>
   ('v, 'w) ServiceProvider" where
  "provide_all [] this = this"
| "provide_all ((ident, factoryFn) # regs) this = provide_all regs (provide ident factoryFn this)"

text \<open>The registrations of a start-up phase that were made through the catalog-entry overload.\<close>

definition catalog_registrations ::
  "('v ServiceIdentifier \<times> ('v, 'w) ServiceFactory) list \<Rightarrow>
   ('v ServiceIdentifier \<times> ('v, 'w) ServiceFactory) list" where
  "catalog_registrations regs = filter (\<lambda>r. isCatalogEntry (fst r)) regs"

section \<open>Objects shared by reference\<close>

text \<open>
  A \<^verbatim>\<open>ServiceProvider\<close> and a \<^verbatim>\<open>ServiceInstances\<close> map are objects: the request storage
  and the closures of \<^verbatim>\<open>withServices\<close> hold references to them, and a write through
  one reference is seen through every other. The runtime keeps both kinds of object in a
  store indexed by address; \<open>next_map\<close> is the address the next \<^verbatim>\<open>new Map()\<close> gets.
  \<open>world\<close> is what the factories act on. \<open>calls\<close> records every execution of
  \<^verbatim>\<open>factory()\<close> in \<^verbatim>\<open>resolveServiceInternal\<close>, latest first, as the pair of the instance
  map and the key it was resolving for.
\<close>

type_synonym addr = nat

type_synonym 'v ServiceInstances = "string \<rightharpoonup> 'v"

record ('v, 'w) runtime =
  providers :: "addr \<Rightarrow> ('v, 'w) ServiceProvider"
  instance_maps :: "addr \<Rightarrow> 'v ServiceInstances"
  next_map :: addr
  world :: 'w
  calls :: "(addr \<times> string) list"

text \<open>\<^verbatim>\<open>provider.provide(...)\<close> on the provider object at address \<open>p\<close>.\<close>

definition provide_at ::
  "addr \<Rightarrow> 'v ServiceIdentifier \<Rightarrow> ('v, 'w) ServiceFactory \<Rightarrow> ('v, 'w) runtime \<Rightarrow> ('v, 'w) runtime" where
  "provide_at p routeOrEntry factoryFn h =
     h\<lparr>providers := (providers h)(p := provide routeOrEntry factoryFn (providers h p))\<rparr>"

section \<open>Request context\<close>

text \<open>
  Modelled from the spec: the request-scoped storage of the router (\<^verbatim>\<open>context.storage\<close>
  with \<^verbatim>\<open>has\<close>, \<^verbatim>\<open>get\<close>, \<^verbatim>\<open>set\<close>) is a key/value store with one token per purpose. The
  two tokens of this package are \<^verbatim>\<open>SERVICE_PROVIDER_KEY\<close> and \<^verbatim>\<open>SERVICES_INSTANCE_KEY\<close>;
  each slot is absent or holds a reference.
\<close>

record AppStorage =
  at_SERVICE_PROVIDER_KEY :: "addr option"
  at_SERVICES_INSTANCE_KEY :: "addr option"

text \<open>
  A property of the \<^verbatim>\<open>services\<close> object: an accessor defined by \<^verbatim>\<open>withServices\<close>, whose
  getter closes over \<^verbatim>\<open>entry\<close>, \<^verbatim>\<open>instances\<close> and \<^verbatim>\<open>provider\<close>, or a data property. The
  object is the list of its own enumerable properties in enumeration order.
\<close>

datatype 'v property = Accessor "'v CatalogEntry" addr addr | DataProperty 'v

type_synonym 'v services_object = "(string \<times> 'v property) list"

record 'v extra_object =
  services :: "'v services_object option"

record 'v RequestContext =
  storage :: AppStorage
  extra :: "'v extra_object option"

datatype error = Error string

section \<open>Scope-providing middleware (with-service-provider.ts)\<close>

text \<open>The body of the middleware up to \<^verbatim>\<open>next()\<close>.\<close>

definition withServiceProvider :: "addr \<Rightarrow> 'v RequestContext \<Rightarrow> 'v RequestContext" where
  "withServiceProvider serviceProvider context =
     context\<lparr>storage := (storage context)\<lparr>at_SERVICE_PROVIDER_KEY := Some serviceProvider\<rparr>\<rparr>"

definition provider_missing_message :: string where
  "provider_missing_message =
     ''No service provider found. Make sure the withServiceProvider middleware is installed.''"

definition getServiceProvider :: "'v RequestContext \<Rightarrow> error + addr" where
  "getServiceProvider context =
     (case at_SERVICE_PROVIDER_KEY (storage context) of
        None \<Rightarrow> Inl (Error provider_missing_message)
      | Some serviceProvider \<Rightarrow> Inr serviceProvider)"

section \<open>Resolver (with-services.ts)\<close>

definition getServiceInstances ::
  "'v RequestContext \<Rightarrow> ('v, 'w) runtime \<Rightarrow> addr \<times> 'v RequestContext \<times> ('v, 'w) runtime" where
  "getServiceInstances context h =
     (case at_SERVICES_INSTANCE_KEY (storage context) of
        None \<Rightarrow>
          (let instances = next_map h
           in (instances,
               context\<lparr>storage := (storage context)\<lparr>at_SERVICES_INSTANCE_KEY := Some instances\<rparr>\<rparr>,
               h\<lparr>instance_maps := (instance_maps h)(instances := Map.empty),
                 next_map := Suc instances\<rparr>))
      | Some instances \<Rightarrow> (instances, context, h))"

text \<open>The route \<^verbatim>\<open>{ method: 'ANY', pattern: { source: '' } }\<close> of the catalog branch.\<close>

definition any_route :: Route where
  "any_route = \<lparr>route_method = ''ANY'', pattern = \<lparr>source = ''''\<rparr>\<rparr>"

definition dq :: string where
  "dq = [CHR 0x22]"

definition not_registered_message :: "string \<Rightarrow> string" where
  "not_registered_message nm =
     ''No factory registered for service '' @ dq @ nm @ dq @ ''. '' @
     ''Did you forget to call serviceProvider.provide()?''"

definition not_registered_on_route_message :: "Route \<Rightarrow> string \<Rightarrow> string" where
  "not_registered_on_route_message route nm =
     ''No factory registered for service '' @ dq @ nm @ dq @ '' on route '' @ dq @
     route_method route @ '' '' @ source (pattern route) @ dq @ ''. '' @
     ''Did you forget to call serviceProvider.provide()?''"

text \<open>
  The last three statements of both branches:
  \<^verbatim>\<open>let instance = factory(); instances.set(key, instance); return instance\<close>, for a
  factory that returns. \<open>invoke_and_store_general\<close> is the same statements for a factory
  that may throw or resolve further services.
\<close>

definition invoke_and_store ::
  "('v, 'w) ServiceFactory \<Rightarrow> addr \<Rightarrow> string \<Rightarrow> ('v, 'w) runtime \<Rightarrow>
   (error + 'v) \<times> ('v, 'w) runtime" where
  "invoke_and_store factory instances key h =
     (let (instance, w) = factory (world h)
      in (Inr instance,
          h\<lparr>instance_maps :=
               (instance_maps h)(instances := (instance_maps h instances)(key \<mapsto> instance)),
            world := w,
            calls := (instances, key) # calls h\<rparr>))"

definition resolveServiceInternal ::
  "'v ServiceIdentifier \<Rightarrow> addr \<Rightarrow> addr \<Rightarrow> ('v, 'w) runtime \<Rightarrow> (error + 'v) \<times> ('v, 'w) runtime" where
  "resolveServiceInternal catalogEntryOrRoute instances provider h =
     (case catalogEntryOrRoute of
        CatalogId entry \<Rightarrow>
          (let nm = entry_name entry; key = nm
           in (case instance_maps h instances key of
                 Some cached \<Rightarrow> (Inr cached, h)
               | None \<Rightarrow>
                   (case getFactory (providers h provider) any_route nm of
                      None \<Rightarrow> (Inl (Error (not_registered_message nm)), h)
                    | Some factory \<Rightarrow> invoke_and_store factory instances key h)))
      | RouteId route nm \<Rightarrow>
          (let key = composite_key route nm
           in (case instance_maps h instances key of
                 Some cached \<Rightarrow> (Inr cached, h)
               | None \<Rightarrow>
                   (case getFactory (providers h provider) route nm of
                      None \<Rightarrow> (Inl (Error (not_registered_on_route_message route nm)), h)
                    | Some factory \<Rightarrow> invoke_and_store factory instances key h))))"

definition resolveService ::
  "'v ServiceIdentifier \<Rightarrow> 'v RequestContext \<Rightarrow> ('v, 'w) runtime \<Rightarrow>
   (error + 'v) \<times> 'v RequestContext \<times> ('v, 'w) runtime" where
  "resolveService catalogEntryOrRoute context h =
     (let (instances, context1, h1) = getServiceInstances context h
      in (case getServiceProvider context1 of
            Inl e \<Rightarrow> (Inl e, context1, h1)
          | Inr provider \<Rightarrow>
              (let (r, h2) = resolveServiceInternal catalogEntryOrRoute instances provider h1
               in (r, context1, h2))))"

section \<open>The adapter withServices\<close>

text \<open>Reading a property: a data property gives its value, an accessor runs its getter.\<close>

definition get_property ::
  "'v property \<Rightarrow> ('v, 'w) runtime \<Rightarrow> (error + 'v) \<times> ('v, 'w) runtime" where
  "get_property p h =
     (case p of
        DataProperty v \<Rightarrow> (Inr v, h)
      | Accessor entry instances provider \<Rightarrow>
          resolveServiceInternal (CatalogId entry) instances provider h)"

text \<open>
  \<^verbatim>\<open>{ ...existingServices }\<close>: every own enumerable property of the source is read, in
  order, and its value becomes a data property of the new object. A getter that throws
  ends the copy.
\<close>

fun spread ::
  "'v services_object \<Rightarrow> ('v, 'w) runtime \<Rightarrow> (error + 'v services_object) \<times> ('v, 'w) runtime" where
  "spread [] h = (Inr [], h)"
| "spread ((nm, p) # rest) h =
     (case get_property p h of
        (Inl e, h1) \<Rightarrow> (Inl e, h1)
      | (Inr v, h1) \<Rightarrow>
          (case spread rest h1 of
             (Inl e, h2) \<Rightarrow> (Inl e, h2)
           | (Inr copied, h2) \<Rightarrow> (Inr ((nm, DataProperty v) # copied), h2)))"

text \<open>
  The enumeration order of the own properties of an object: the names that are array
  indices (canonical decimal numerals up to \<open>2\<^sup>3\<^sup>2 - 2\<close>) in ascending numeric order, then
  the other names in the order of their creation.
\<close>

definition digit_of :: "char \<Rightarrow> nat option" where
  "digit_of c = map_of (zip ''0123456789'' [0, 1, 2, 3, 4, 5, 6, 7, 8, 9]) c"

fun decimal_value :: "string \<Rightarrow> nat \<Rightarrow> nat option" where
  "decimal_value [] n = Some n"
| "decimal_value (c # cs) n =
     (case digit_of c of None \<Rightarrow> None | Some d \<Rightarrow> decimal_value cs (10 * n + d))"

definition array_index :: "string \<Rightarrow> nat option" where
  "array_index nm =
     (case nm of
        [] \<Rightarrow> None
      | c # cs \<Rightarrow>
          if c = CHR ''0'' \<and> cs \<noteq> [] then None
          else (case decimal_value nm 0 of
                  None \<Rightarrow> None
                | Some n \<Rightarrow> if n \<le> 4294967294 then Some n else None))"

text \<open>
  \<^verbatim>\<open>Object.defineProperty(obj, nm, ...)\<close> with \<^verbatim>\<open>configurable: true\<close>: an existing
  property of that name is replaced where it stands; a new array index is enumerated
  among the array indices, in numeric order, and any other new name at the end.
\<close>

fun replace_property ::
  "'v services_object \<Rightarrow> string \<Rightarrow> 'v property \<Rightarrow> 'v services_object" where
  "replace_property [] nm p = []"
| "replace_property ((k, q) # rest) nm p =
     (if k = nm then (nm, p) # rest else (k, q) # replace_property rest nm p)"

fun insert_index ::
  "'v services_object \<Rightarrow> nat \<Rightarrow> string \<Rightarrow> 'v property \<Rightarrow> 'v services_object" where
  "insert_index [] n nm p = [(nm, p)]"
| "insert_index ((k, q) # rest) n nm p =
     (case array_index k of
        None \<Rightarrow> (nm, p) # (k, q) # rest
      | Some m \<Rightarrow> if m < n then (k, q) # insert_index rest n nm p else (nm, p) # (k, q) # rest)"

definition defineProperty ::
  "'v services_object \<Rightarrow> string \<Rightarrow> 'v property \<Rightarrow> 'v services_object" where
  "defineProperty obj nm p =
     (if nm \<in> fst ` set obj then replace_property obj nm p
      else (case array_index nm of
              None \<Rightarrow> obj @ [(nm, p)]
            | Some n \<Rightarrow> insert_index obj n nm p))"

text \<open>The \<^verbatim>\<open>for (let entry of entries)\<close> loop.\<close>

fun define_getters ::
  "'v CatalogEntry list \<Rightarrow> addr \<Rightarrow> addr \<Rightarrow> 'v services_object \<Rightarrow> 'v services_object" where
  "define_getters [] instances provider obj = obj"
| "define_getters (entry # entries) instances provider obj =
     define_getters entries instances provider
       (defineProperty obj (entry_name entry) (Accessor entry instances provider))"

text \<open>\<^verbatim>\<open>context.extra?.services ?? {}\<close>\<close>

definition existing_services :: "'v RequestContext \<Rightarrow> 'v services_object" where
  "existing_services context =
     (case extra context of
        None \<Rightarrow> []
      | Some ex \<Rightarrow> (case services ex of None \<Rightarrow> [] | Some obj \<Rightarrow> obj))"

text \<open>The middleware returned by \<^verbatim>\<open>withServices(...entries)\<close>, run on a request context.\<close>

definition withServices ::
  "'v CatalogEntry list \<Rightarrow> 'v RequestContext \<Rightarrow> ('v, 'w) runtime \<Rightarrow>
   (error + unit) \<times> 'v RequestContext \<times> ('v, 'w) runtime" where
  "withServices entries context h =
     (let (instances, context1, h1) = getServiceInstances context h
      in (case getServiceProvider context1 of
            Inl e \<Rightarrow> (Inl e, context1, h1)
          | Inr provider \<Rightarrow>
              (let existingServices = existing_services context1
               in (case spread existingServices h1 of
                     (Inl e, h2) \<Rightarrow> (Inl e, context1, h2)
                   | (Inr copied, h2) \<Rightarrow>
                       (let obj = define_getters entries instances provider copied;
                            ex = (case extra context1 of
                                    None \<Rightarrow> \<lparr>services = None\<rparr>
                                  | Some ex0 \<Rightarrow> ex0)
                        in (Inr (),
                            context1\<lparr>extra := Some (ex\<lparr>services := Some obj\<rparr>)\<rparr>,
                            h2))))))"

text \<open>Handler code reading \<^verbatim>\<open>context.extra.services[nm]\<close>; an absent property is \<^verbatim>\<open>undefined\<close>.\<close>

definition read_service ::
  "'v services_object \<Rightarrow> string \<Rightarrow> ('v, 'w) runtime \<Rightarrow> (error + 'v option) \<times> ('v, 'w) runtime" where
  "read_service obj nm h =
     (case map_of obj nm of
        None \<Rightarrow> (Inr None, h)
      | Some p \<Rightarrow>
          (case get_property p h of
             (Inl e, h1) \<Rightarrow> (Inl e, h1)
           | (Inr v, h1) \<Rightarrow> (Inr (Some v), h1)))"

section \<open>Runs of one request\<close>

text \<open>
  What a request may do with one instance map and one provider, step after step:
  resolve an identifier (an error is caught by the caller and the run goes on) or register
  a factory.
\<close>

datatype ('v, 'w) request_step =
  Resolve "'v ServiceIdentifier"
| Register "'v ServiceIdentifier" "('v, 'w) ServiceFactory"

fun run_step ::
  "('v, 'w) request_step \<Rightarrow> addr \<Rightarrow> addr \<Rightarrow> ('v, 'w) runtime \<Rightarrow> ('v, 'w) runtime" where
  "run_step (Resolve ident) instances provider h =
     snd (resolveServiceInternal ident instances provider h)"
| "run_step (Register ident factoryFn) instances provider h =
     provide_at provider ident factoryFn h"

fun run_steps ::
  "('v, 'w) request_step list \<Rightarrow> addr \<Rightarrow> addr \<Rightarrow> ('v, 'w) runtime \<Rightarrow> ('v, 'w) runtime" where
  "run_steps [] instances provider h = h"
| "run_steps (step # steps) instances provider h =
     run_steps steps instances provider (run_step step instances provider h)"

section \<open>The registry query and the error of each branch\<close>

text \<open>
  The \<^verbatim>\<open>provider.getFactory(...)\<close> call of each branch of \<^verbatim>\<open>resolveServiceInternal\<close>,
  and the \<^verbatim>\<open>Error\<close> each branch throws when the call returns \<^verbatim>\<open>undefined\<close>.
\<close>

fun lookup_for ::
  "'v ServiceIdentifier \<Rightarrow> ('v, 'w) ServiceProvider \<Rightarrow> ('v, 'w) ServiceFactory option" where
  "lookup_for (CatalogId entry) this = getFactory this any_route (entry_name entry)"
| "lookup_for (RouteId route nm) this = getFactory this route nm"

fun not_registered_error :: "'v ServiceIdentifier \<Rightarrow> error" where
  "not_registered_error (CatalogId entry) = Error (not_registered_message (entry_name entry))"
| "not_registered_error (RouteId route nm) = Error (not_registered_on_route_message route nm)"

section \<open>Concrete requests\<close>

text \<open>
  A request context as the router hands it to the first middleware, a runtime in which
  every provider is freshly constructed and no instance map exists yet, the factory of
  the tests (it increments a counter and returns the new count), and the entry that
  \<^verbatim>\<open>defineCatalog({ nm: serviceOf() })\<close> holds under \<open>nm\<close>.
\<close>

definition empty_context :: "'v RequestContext" where
  "empty_context =
     \<lparr>storage = \<lparr>at_SERVICE_PROVIDER_KEY = None, at_SERVICES_INSTANCE_KEY = None\<rparr>,
      extra = None\<rparr>"

definition initial_runtime :: "'w \<Rightarrow> ('v, 'w) runtime" where
  "initial_runtime w =
     \<lparr>providers = (\<lambda>_. new_ServiceProvider None), instance_maps = (\<lambda>_. Map.empty),
      next_map = 0, world = w, calls = []\<rparr>"

definition counter_factory :: "(nat, nat) ServiceFactory" where
  "counter_factory n = (Suc n, Suc n)"

definition constant_factory :: "'v \<Rightarrow> ('v, 'w) ServiceFactory" where
  "constant_factory v w = (v, w)"

definition catalog_entry :: "string \<Rightarrow> 'v CatalogEntry" where
  "catalog_entry nm = named_entry (Some serviceOf) nm"


text \<open>A route with the pattern \<^verbatim>\<open>/posts\<close>, as in the tests, for a given method.\<close>

definition posts_route :: "string \<Rightarrow> Route" where
  "posts_route m = \<lparr>route_method = m, pattern = \<lparr>source = ''/posts''\<rparr>\<rparr>"

text \<open>
  A chain of \<^verbatim>\<open>withServices\<close> middlewares run by the router one after another on the
  same context; a middleware that throws ends the chain.
\<close>

fun withServices_chain ::
  "'v CatalogEntry list list \<Rightarrow> 'v RequestContext \<Rightarrow> ('v, 'w) runtime \<Rightarrow>
   (error + unit) \<times> 'v RequestContext \<times> ('v, 'w) runtime" where
  "withServices_chain [] context h = (Inr (), context, h)"
| "withServices_chain (entries # rest) context h =
     (case withServices entries context h of
        (Inl e, context1, h1) \<Rightarrow> (Inl e, context1, h1)
      | (Inr u, context1, h1) \<Rightarrow> withServices_chain rest context1 h1)"

text \<open>
  A request as the tests set it up: the router runs \<^verbatim>\<open>withServiceProvider\<close>, then the
  route's \<^verbatim>\<open>withServices\<close>, then a handler that reads one property of
  \<^verbatim>\<open>context.extra.services\<close>.
\<close>

definition request_with_services ::
  "addr \<Rightarrow> 'v CatalogEntry list \<Rightarrow> string \<Rightarrow> ('v, 'w) runtime \<Rightarrow>
   (error + 'v option) \<times> ('v, 'w) runtime" where
  "request_with_services serviceProvider entries nm h =
     (case withServices entries (withServiceProvider serviceProvider empty_context) h of
        (Inl e, context1, h1) \<Rightarrow> (Inl e, h1)
      | (Inr u, context1, h1) \<Rightarrow> read_service (existing_services context1) nm h1)"

section \<open>Factories in general\<close>

text \<open>
  In general a factory is any function of the program. Besides acting on what it closes
  over it may throw, and it may call \<^verbatim>\<open>resolveService\<close> for the running request, which reads
  and writes the instance maps. A general factory is therefore a transformer of the heap,
  that is of the instance maps, the allocation counter, the world and the call log, and it
  ends with a value (\<open>Inr\<close>) or with a thrown error (\<open>Inl\<close>). Two things stay outside: a
  factory that registers factories (the registry would hold functions on a state that holds
  the registry), and a factory call that never ends, after which nothing is observed.

  \<open>heap_calls\<close> records every execution of \<^verbatim>\<open>factory()\<close> in \<^verbatim>\<open>resolveServiceInternal\<close> that
  has ended, latest first: the instance map, the key it was resolving for, and whether the
  call returned (\<open>True\<close>) or threw (\<open>False\<close>).
\<close>

record ('v, 'w) heap =
  heap_instance_maps :: "addr \<Rightarrow> 'v ServiceInstances"
  heap_next_map :: addr
  heap_world :: 'w
  heap_calls :: "(addr \<times> string \<times> bool) list"

type_synonym ('v, 'w) general_factory = "('v, 'w) heap \<Rightarrow> (error + 'v) \<times> ('v, 'w) heap"

text \<open>
  The provider objects, each one as its \<^verbatim>\<open>#factories\<close> map, and the heap the factories
  act on.
\<close>

record ('v, 'w) general_runtime =
  general_providers :: "addr \<Rightarrow> (string \<rightharpoonup> ('v, 'w) general_factory)"
  heap_of :: "('v, 'w) heap"

text \<open>\<^verbatim>\<open>provide\<close> and \<^verbatim>\<open>getFactory\<close> on the \<^verbatim>\<open>#factories\<close> map, for factories of any type.\<close>

definition provide_general ::
  "'v ServiceIdentifier \<Rightarrow> 'f \<Rightarrow> (string \<rightharpoonup> 'f) \<Rightarrow> (string \<rightharpoonup> 'f)" where
  "provide_general routeOrEntry factoryFn fs =
     (case routeOrEntry of
        CatalogId entry \<Rightarrow> fs(entry_name entry \<mapsto> factoryFn)
      | RouteId route serviceName \<Rightarrow>
          (let key = composite_key route serviceName
           in fs(key \<mapsto> factoryFn)))"

definition getFactory_general :: "(string \<rightharpoonup> 'f) \<Rightarrow> Route \<Rightarrow> string \<Rightarrow> 'f option" where
  "getFactory_general fs route serviceName =
     (let routeKey = composite_key route serviceName;
          factory = fs routeKey
      in (case factory of
            None \<Rightarrow> fs serviceName
          | Some f \<Rightarrow> Some f))"

definition provide_at_general ::
  "addr \<Rightarrow> 'v ServiceIdentifier \<Rightarrow> ('v, 'w) general_factory \<Rightarrow> ('v, 'w) general_runtime \<Rightarrow>
   ('v, 'w) general_runtime" where
  "provide_at_general p routeOrEntry factoryFn rt =
     rt\<lparr>general_providers :=
          (general_providers rt)(p := provide_general routeOrEntry factoryFn (general_providers rt p))\<rparr>"

text \<open>\<^verbatim>\<open>getServiceInstances\<close>, the new \<^verbatim>\<open>Map\<close> being allocated in the heap.\<close>

definition getServiceInstances_general ::
  "'v RequestContext \<Rightarrow> ('v, 'w) general_runtime \<Rightarrow>
   addr \<times> 'v RequestContext \<times> ('v, 'w) general_runtime" where
  "getServiceInstances_general context rt =
     (case at_SERVICES_INSTANCE_KEY (storage context) of
        None \<Rightarrow>
          (let instances = heap_next_map (heap_of rt)
           in (instances,
               context\<lparr>storage := (storage context)\<lparr>at_SERVICES_INSTANCE_KEY := Some instances\<rparr>\<rparr>,
               rt\<lparr>heap_of := (heap_of rt)
                    \<lparr>heap_instance_maps := (heap_instance_maps (heap_of rt))(instances := Map.empty),
                      heap_next_map := Suc instances\<rparr>\<rparr>))
      | Some instances \<Rightarrow> (instances, context, rt))"

text \<open>
  \<^verbatim>\<open>let instance = factory(); instances.set(key, instance); return instance\<close> for a general
  factory. The factory runs on the heap as it is and leaves a heap behind. When it throws,
  the two statements after the call are skipped and the error leaves
  \<^verbatim>\<open>resolveServiceInternal\<close>; when it returns, the value is stored in the instance map as the
  factory left it.
\<close>

definition invoke_and_store_general ::
  "('v, 'w) general_factory \<Rightarrow> addr \<Rightarrow> string \<Rightarrow> ('v, 'w) general_runtime \<Rightarrow>
   (error + 'v) \<times> ('v, 'w) general_runtime" where
  "invoke_and_store_general factory instances key rt =
     (case factory (heap_of rt) of
        (Inl e, s) \<Rightarrow>
          (Inl e, rt\<lparr>heap_of := s\<lparr>heap_calls := (instances, key, False) # heap_calls s\<rparr>\<rparr>)
      | (Inr instance, s) \<Rightarrow>
          (Inr instance,
           rt\<lparr>heap_of := s
                \<lparr>heap_instance_maps :=
                   (heap_instance_maps s)(instances := (heap_instance_maps s instances)(key \<mapsto> instance)),
                 heap_calls := (instances, key, True) # heap_calls s\<rparr>\<rparr>))"

definition resolveServiceInternal_general ::
  "'v ServiceIdentifier \<Rightarrow> addr \<Rightarrow> addr \<Rightarrow> ('v, 'w) general_runtime \<Rightarrow>
   (error + 'v) \<times> ('v, 'w) general_runtime" where
  "resolveServiceInternal_general catalogEntryOrRoute instances provider rt =
     (case catalogEntryOrRoute of
        CatalogId entry \<Rightarrow>
          (let nm = entry_name entry; key = nm
           in (case heap_instance_maps (heap_of rt) instances key of
                 Some cached \<Rightarrow> (Inr cached, rt)
               | None \<Rightarrow>
                   (case getFactory_general (general_providers rt provider) any_route nm of
                      None \<Rightarrow> (Inl (Error (not_registered_message nm)), rt)
                    | Some factory \<Rightarrow> invoke_and_store_general factory instances key rt)))
      | RouteId route nm \<Rightarrow>
          (let key = composite_key route nm
           in (case heap_instance_maps (heap_of rt) instances key of
                 Some cached \<Rightarrow> (Inr cached, rt)
               | None \<Rightarrow>
                   (case getFactory_general (general_providers rt provider) route nm of
                      None \<Rightarrow> (Inl (Error (not_registered_on_route_message route nm)), rt)
                    | Some factory \<Rightarrow> invoke_and_store_general factory instances key rt))))"

definition resolveService_general ::
  "'v ServiceIdentifier \<Rightarrow> 'v RequestContext \<Rightarrow> ('v, 'w) general_runtime \<Rightarrow>
   (error + 'v) \<times> 'v RequestContext \<times> ('v, 'w) general_runtime" where
  "resolveService_general catalogEntryOrRoute context rt =
     (let (instances, context1, rt1) = getServiceInstances_general context rt
      in (case getServiceProvider context1 of
            Inl e \<Rightarrow> (Inl e, context1, rt1)
          | Inr provider \<Rightarrow>
              (let (r, rt2) = resolveServiceInternal_general catalogEntryOrRoute instances provider rt1
               in (r, context1, rt2))))"









text \<open>
  A factory of the first sections as a general factory: it acts on the world and returns.
  A runtime of the first sections as a general runtime: every recorded call returned.
\<close>

definition lift_factory :: "('v, 'w) ServiceFactory \<Rightarrow> ('v, 'w) general_factory" where
  "lift_factory factory s =
     (case factory (heap_world s) of (instance, w) \<Rightarrow> (Inr instance, s\<lparr>heap_world := w\<rparr>))"


text \<open>A general runtime with empty registries and no instance map.\<close>

definition general_initial :: "'w \<Rightarrow> ('v, 'w) general_runtime" where
  "general_initial w =
     \<lparr>general_providers = (\<lambda>_. Map.empty),
      heap_of =
        \<lparr>heap_instance_maps = (\<lambda>_. Map.empty), heap_next_map = 0, heap_world = w,
         heap_calls = []\<rparr>\<rparr>"

text \<open>
  \<^verbatim>\<open>() => { n++; throw new Error('boom') }\<close>: a factory that counts its calls and throws.
\<close>

definition failing_factory :: "(nat, nat) general_factory" where
  "failing_factory s = (Inl (Error ''boom''), s\<lparr>heap_world := Suc (heap_world s)\<rparr>)"

text \<open>
  A factory registered for the catalog entry \<^verbatim>\<open>svc\<close> that resolves its own entry the first
  time it runs:
  \<^verbatim>\<open>() => { if (first) { first = false; resolveService(catalog.svc); return 2 } return 1 }\<close>.
  The world is 0 while \<^verbatim>\<open>first\<close> holds. The nested \<^verbatim>\<open>resolveService\<close> works on the instance
  map of the running request: with a cached value it changes nothing; with none it runs
  this factory again, which now returns 1, stores 1 and records the call. The definition
  writes the nested call out, and \<open>reentrant_factory_calls_resolver\<close> shows that what is
  written is the nested call.
\<close>

definition reentrant_factory :: "addr \<Rightarrow> (nat, nat) general_factory" where
  "reentrant_factory instances s =
     (if heap_world s = 0
      then (let s1 = s\<lparr>heap_world := 1\<rparr>
            in (case heap_instance_maps s1 instances ''svc'' of
                  Some cached \<Rightarrow> (Inr 2, s1)
                | None \<Rightarrow>
                    (Inr 2,
                     s1\<lparr>heap_instance_maps :=
                          (heap_instance_maps s1)(instances :=
                             (heap_instance_maps s1 instances)(''svc'' \<mapsto> 1)),
                        heap_calls := (instances, ''svc'', True) # heap_calls s1\<rparr>)))
      else (Inr 1, s))"

section \<open>Basic facts\<close>

lemmas property_defs = defineProperty_def array_index_def digit_of_def

lemmas run_defs =
  resolveServiceInternal_def invoke_and_store_def getFactory_def provide_at_def provide_def
  composite_key_def any_route_def new_ServiceProvider_def initial_runtime_def empty_context_def
  catalog_entry_def named_entry_def serviceOf_def counter_factory_def constant_factory_def Let_def

lemmas adapter_defs =
  withServices_def getServiceInstances_def getServiceProvider_def existing_services_def
  withServiceProvider_def get_property_def property_defs

lemma getFactory_cases:
  "getFactory this route nm =
     (case factories this (composite_key route nm) of
        None \<Rightarrow> factories this nm
      | Some f \<Rightarrow> Some f)"
  by (simp add: getFactory_def)

lemma resolveServiceInternal_cases:
  "resolveServiceInternal ident instances provider h =
     (case instance_maps h instances (canonical_key ident) of
        Some cached \<Rightarrow> (Inr cached, h)
      | None \<Rightarrow>
          (case lookup_for ident (providers h provider) of
             None \<Rightarrow> (Inl (not_registered_error ident), h)
           | Some factory \<Rightarrow> invoke_and_store factory instances (canonical_key ident) h))"
  by (cases ident) (simp_all add: resolveServiceInternal_def split: option.splits)

lemma resolveServiceInternal_hit:
  "instance_maps h instances (canonical_key ident) = Some v \<Longrightarrow>
   resolveServiceInternal ident instances provider h = (Inr v, h)"
  by (simp add: resolveServiceInternal_cases)

lemma resolveServiceInternal_miss_none:
  "instance_maps h instances (canonical_key ident) = None \<Longrightarrow>
   lookup_for ident (providers h provider) = None \<Longrightarrow>
   resolveServiceInternal ident instances provider h = (Inl (not_registered_error ident), h)"
  by (simp add: resolveServiceInternal_cases)

lemma resolveServiceInternal_miss_some:
  "instance_maps h instances (canonical_key ident) = None \<Longrightarrow>
   lookup_for ident (providers h provider) = Some factory \<Longrightarrow>
   resolveServiceInternal ident instances provider h =
     invoke_and_store factory instances (canonical_key ident) h"
  by (simp add: resolveServiceInternal_cases)

lemma invoke_and_store_fst:
  "fst (invoke_and_store factory instances key h) = Inr (fst (factory (world h)))"
  by (simp add: invoke_and_store_def split: prod.splits)

lemma invoke_and_store_snd:
  "snd (invoke_and_store factory instances key h) =
     h\<lparr>instance_maps :=
          (instance_maps h)(instances := (instance_maps h instances)(key \<mapsto> fst (factory (world h)))),
       world := snd (factory (world h)),
       calls := (instances, key) # calls h\<rparr>"
  by (simp add: invoke_and_store_def split: prod.splits)

lemma provide_factories:
  "factories (provide ident f this) k =
     (if k = canonical_key ident then Some f else factories this k)"
  by (cases ident) (simp_all add: provide_def)

lemma provide_catalog_of: "catalog_of (provide ident f this) = catalog_of this"
  by (cases ident) (simp_all add: provide_def)

lemma any_route_key: "composite_key any_route nm = ''ANY::'' @ nm"
  by (simp add: composite_key_def any_route_def)

section \<open>getServiceProvider\<close>

lemma provider_missing_message_names_middleware:
  "sublist ''withServiceProvider middleware'' provider_missing_message"
proof -
  have "provider_missing_message =
      ''No service provider found. Make sure the '' @ ''withServiceProvider middleware'' @
      '' is installed.''"
    by (simp add: provider_missing_message_def)
  then show ?thesis
    by (metis sublist_appendI)
qed

text \<open>
  C6. \<^verbatim>\<open>getServiceProvider\<close> throws exactly when the storage of the request holds nothing
  under the provider key; the error then carries the message that tells to install the
  \<^verbatim>\<open>withServiceProvider\<close> middleware. When a handle is stored, that handle is returned. The
  function only reads the context: it returns no new context and no new runtime.
\<close>

theorem getServiceProvider_throws_iff_no_handle:
  "((\<exists>e. getServiceProvider context = Inl e) \<longleftrightarrow>
      at_SERVICE_PROVIDER_KEY (storage context) = None)
   \<and> (at_SERVICE_PROVIDER_KEY (storage context) = None \<longrightarrow>
        getServiceProvider context = Inl (Error provider_missing_message))
   \<and> (at_SERVICE_PROVIDER_KEY (storage context) = Some p \<longrightarrow>
        getServiceProvider context = Inr p)
   \<and> sublist ''withServiceProvider middleware'' provider_missing_message"
  by (auto simp: getServiceProvider_def provider_missing_message_names_middleware
      split: option.splits)

theorem getServiceProvider_throws_iff_no_handle_witness:
  "getServiceProvider (withServiceProvider 7 (empty_context :: nat RequestContext)) = Inr 7
   \<and> getServiceProvider (empty_context :: nat RequestContext) =
       Inl (Error provider_missing_message)"
  using getServiceProvider_throws_iff_no_handle
          [of "withServiceProvider 7 (empty_context :: nat RequestContext)" 7]
        getServiceProvider_throws_iff_no_handle [of "empty_context :: nat RequestContext" 0]
  by (simp add: withServiceProvider_def empty_context_def)

section \<open>A failed resolution changes nothing\<close>

text \<open>
  C10. When \<^verbatim>\<open>resolveServiceInternal\<close> throws, the runtime after the call is the runtime
  before it: no instance map has a new or a changed entry. Conversely, when an instance
  map has changed, the call has returned the product of the factory found in the registry
  and the latest recorded factory call is the one for this key.
\<close>

theorem failed_resolution_leaves_cache:
  "(fst (resolveServiceInternal ident instances provider h) = Inl e \<longrightarrow>
      snd (resolveServiceInternal ident instances provider h) = h)
   \<and> (instance_maps (snd (resolveServiceInternal ident instances provider h)) \<noteq> instance_maps h \<longrightarrow>
        (\<exists>factory. lookup_for ident (providers h provider) = Some factory
           \<and> fst (resolveServiceInternal ident instances provider h) =
               Inr (fst (factory (world h))))
        \<and> calls (snd (resolveServiceInternal ident instances provider h)) =
          (instances, canonical_key ident) # calls h)"
  by (auto simp: resolveServiceInternal_cases invoke_and_store_fst invoke_and_store_snd
      split: option.splits)

theorem failed_resolution_leaves_cache_witness:
  "fst (resolveServiceInternal (CatalogId (catalog_entry ''missingService'')) 0 0
          (initial_runtime (0::nat) :: (nat, nat) runtime)) =
     Inl (Error (not_registered_message ''missingService''))
   \<and> snd (resolveServiceInternal (CatalogId (catalog_entry ''missingService'')) 0 0
          (initial_runtime (0::nat) :: (nat, nat) runtime)) = initial_runtime 0
   \<and> fst (resolveServiceInternal (CatalogId (catalog_entry ''counter'')) 0 0
          (provide_at 0 (CatalogId (catalog_entry ''counter'')) counter_factory (initial_runtime 0))) = Inr 1
   \<and> calls (snd (resolveServiceInternal (CatalogId (catalog_entry ''counter'')) 0 0
          (provide_at 0 (CatalogId (catalog_entry ''counter'')) counter_factory (initial_runtime 0)))) =
       [(0, ''counter'')]"
proof -
  let ?h0 = "initial_runtime (0::nat) :: (nat, nat) runtime"
  let ?m = "CatalogId (catalog_entry ''missingService'') :: nat ServiceIdentifier"
  let ?c = "CatalogId (catalog_entry ''counter'') :: nat ServiceIdentifier"
  let ?h1 = "provide_at 0 ?c counter_factory ?h0"
  have miss: "fst (resolveServiceInternal ?m 0 0 ?h0) =
      Inl (Error (not_registered_message ''missingService''))"
    by (simp add: run_defs)
  have changed: "instance_maps (snd (resolveServiceInternal ?c 0 0 ?h1)) \<noteq> instance_maps ?h1"
  proof
    assume eq: "instance_maps (snd (resolveServiceInternal ?c 0 0 ?h1)) = instance_maps ?h1"
    have "instance_maps (snd (resolveServiceInternal ?c 0 0 ?h1)) 0 ''counter'' = Some 1"
      by (simp add: run_defs)
    moreover have "instance_maps ?h1 0 ''counter'' = None"
      by (simp add: initial_runtime_def provide_at_def)
    ultimately show False using eq by simp
  qed
  have c1: "fst (resolveServiceInternal ?c 0 0 ?h1) = Inr 1"
    by (simp add: run_defs)
  from failed_resolution_leaves_cache
         [of ?m 0 0 ?h0 "Error (not_registered_message ''missingService'')"]
       failed_resolution_leaves_cache [of ?c 0 0 ?h1] miss changed c1
  show ?thesis
    by (simp add: initial_runtime_def provide_at_def catalog_entry_def named_entry_def)
qed

section \<open>defineCatalog\<close>

lemma defineCatalog_loop_own_entries:
  "own_entries (defineCatalog_loop names catalog result) k =
     (if k \<in> set names \<and> k \<noteq> ''__proto__'' then Some (named_entry (map_of catalog k) k)
      else own_entries result k)"
  by (induction names arbitrary: result) (auto simp: assign_entry_def)

lemma defineCatalog_loop_prototype:
  "prototype_entry (defineCatalog_loop names catalog result) =
     (if ''__proto__'' \<in> set names
      then Some (named_entry (map_of catalog ''__proto__'') ''__proto__'')
      else prototype_entry result)"
  by (induction names arbitrary: result) (auto simp: assign_entry_def)

lemma defineCatalog_own_entries:
  "own_entries (defineCatalog catalog) k =
     (if k \<in> set (Object_keys catalog) \<and> k \<noteq> ''__proto__''
      then Some (named_entry (map_of catalog k) k) else None)"
  by (simp add: defineCatalog_def defineCatalog_loop_own_entries empty_object_def)

lemma defineCatalog_prototype:
  "prototype_entry (defineCatalog catalog) =
     (if ''__proto__'' \<in> set (Object_keys catalog)
      then Some (named_entry (map_of catalog ''__proto__'') ''__proto__'') else None)"
  by (simp add: defineCatalog_def defineCatalog_loop_prototype empty_object_def)

text \<open>
  What the function does for every input: the own keys of the output are the keys of the
  input other than \<^verbatim>\<open>__proto__\<close>; under each of them the output holds the fields of the input
  definition together with \<^verbatim>\<open>__name\<close> set to the key; a definition under the key
  \<^verbatim>\<open>__proto__\<close> becomes, with its name attached, the prototype of the output; and two input
  objects with the same properties, enumerated in any two orders, give the same output.
\<close>

lemma defineCatalog_entries:
  "own_keys (defineCatalog catalog) = set (Object_keys catalog) - {''__proto__''}
   \<and> (map_of catalog k = Some d \<and> k \<noteq> ''__proto__'' \<longrightarrow>
        own_entries (defineCatalog catalog) k =
          Some \<lparr>serviceType = serviceType d, entry_name = k\<rparr>)
   \<and> (map_of catalog ''__proto__'' = Some d \<longrightarrow>
        prototype_entry (defineCatalog catalog) =
          Some \<lparr>serviceType = serviceType d, entry_name = ''__proto__''\<rparr>)
   \<and> (distinct (Object_keys catalog) \<and> distinct (Object_keys other) \<and> set other = set catalog \<longrightarrow>
        defineCatalog other = defineCatalog catalog)"
proof (intro conjI impI)
  show "own_keys (defineCatalog catalog) = set (Object_keys catalog) - {''__proto__''}"
    by (auto simp: own_keys_def defineCatalog_own_entries dom_def)
next
  assume d: "map_of catalog k = Some d \<and> k \<noteq> ''__proto__''"
  then have "k \<in> set (Object_keys catalog)"
    by (auto simp: Object_keys_def dest: map_of_SomeD intro: rev_image_eqI)
  with d show "own_entries (defineCatalog catalog) k =
      Some \<lparr>serviceType = serviceType d, entry_name = k\<rparr>"
    by (simp add: defineCatalog_own_entries named_entry_def)
next
  assume d: "map_of catalog ''__proto__'' = Some d"
  then have "''__proto__'' \<in> set (Object_keys catalog)"
    by (auto simp: Object_keys_def dest: map_of_SomeD intro: rev_image_eqI)
  with d show "prototype_entry (defineCatalog catalog) =
      Some \<lparr>serviceType = serviceType d, entry_name = ''__proto__''\<rparr>"
    by (simp add: defineCatalog_prototype named_entry_def)
next
  assume a: "distinct (Object_keys catalog) \<and> distinct (Object_keys other) \<and> set other = set catalog"
  then have m: "map_of other = map_of catalog"
    by (simp add: Object_keys_def map_of_inject_set)
  from a have k: "set (Object_keys other) = set (Object_keys catalog)"
    by (simp add: Object_keys_def)
  have "own_entries (defineCatalog other) = own_entries (defineCatalog catalog)"
    using m k by (auto simp: defineCatalog_own_entries fun_eq_iff)
  moreover have "prototype_entry (defineCatalog other) = prototype_entry (defineCatalog catalog)"
    using m k by (simp add: defineCatalog_prototype)
  ultimately show "defineCatalog other = defineCatalog catalog"
    by simp
qed

text \<open>
  C8. The claim says that the output has an entry under every key of the input and has
  exactly the keys of the input. The code breaks it for the key \<^verbatim>\<open>__proto__\<close>: for the input
  \<^verbatim>\<open>{ ['__proto__']: serviceOf(), a: serviceOf() }\<close>, whose own keys are \<^verbatim>\<open>__proto__\<close> and
  \<^verbatim>\<open>a\<close>, the output has the single own key \<^verbatim>\<open>a\<close>; the entry made for \<^verbatim>\<open>__proto__\<close> is not
  stored under that key but has become the prototype of the output.
\<close>

theorem defineCatalog_loses_proto_key:
  "Object_keys [(''__proto__'', serviceOf :: nat ServiceDef), (''a'', serviceOf)] =
     [''__proto__'', ''a'']
   \<and> own_keys (defineCatalog [(''__proto__'', serviceOf :: nat ServiceDef), (''a'', serviceOf)]) =
     {''a''}
   \<and> own_keys (defineCatalog [(''__proto__'', serviceOf :: nat ServiceDef), (''a'', serviceOf)]) \<noteq>
     set (Object_keys [(''__proto__'', serviceOf :: nat ServiceDef), (''a'', serviceOf)])
   \<and> own_entries (defineCatalog [(''__proto__'', serviceOf :: nat ServiceDef), (''a'', serviceOf)])
       ''__proto__'' = None
   \<and> own_entries (defineCatalog [(''__proto__'', serviceOf :: nat ServiceDef), (''a'', serviceOf)])
       ''a'' = Some \<lparr>serviceType = None, entry_name = ''a''\<rparr>
   \<and> prototype_entry
       (defineCatalog [(''__proto__'', serviceOf :: nat ServiceDef), (''a'', serviceOf)]) =
     Some \<lparr>serviceType = None, entry_name = ''__proto__''\<rparr>"
  by (auto simp: own_keys_def defineCatalog_own_entries defineCatalog_prototype Object_keys_def
      named_entry_def serviceOf_def dom_def)

section \<open>One instance map per request scope\<close>

lemma spread_only_data:
  "spread obj h = (Inr copied, h') \<Longrightarrow> (nm, Accessor e a p) \<notin> set copied"
proof (induction obj arbitrary: h copied h')
  case Nil
  then show ?case by simp
next
  case (Cons x obj)
  obtain k q where x: "x = (k, q)" by (cases x)
  from Cons.prems x show ?case
    by (auto split: prod.splits sum.splits dest: Cons.IH)
qed

lemma replace_property_set:
  "(k, q) \<in> set (replace_property obj nm p) \<Longrightarrow> (k, q) \<in> set obj \<or> (k = nm \<and> q = p)"
  by (induction obj nm p rule: replace_property.induct) (auto split: if_splits)

lemma insert_index_set: "set (insert_index obj n nm p) = insert (nm, p) (set obj)"
  by (induction obj n nm p rule: insert_index.induct) (auto split: option.splits)

lemma defineProperty_set:
  "(k, q) \<in> set (defineProperty obj nm p) \<Longrightarrow> (k, q) \<in> set obj \<or> (k = nm \<and> q = p)"
  by (auto simp: defineProperty_def insert_index_set dest: replace_property_set
      split: if_splits option.splits)

lemma replace_property_names:
  "nm \<in> fst ` set obj \<Longrightarrow> fst ` set (replace_property obj nm p) = fst ` set obj"
  by (induction obj nm p rule: replace_property.induct) (auto split: if_splits)

lemma defineProperty_names:
  "fst ` set (defineProperty obj nm p) = insert nm (fst ` set obj)"
  by (auto simp: defineProperty_def insert_index_set replace_property_names
      split: option.splits)

lemma replace_property_map_of:
  "map_of (replace_property obj nm p) k =
     (if k = nm \<and> map_of obj nm \<noteq> None then Some p else map_of obj k)"
  by (induction obj nm p rule: replace_property.induct) auto

lemma insert_index_map_of:
  "nm \<notin> fst ` set obj \<Longrightarrow>
   map_of (insert_index obj n nm p) k = (if k = nm then Some p else map_of obj k)"
  by (induction obj n nm p rule: insert_index.induct) (auto split: option.splits)

lemma append_map_of:
  "nm \<notin> fst ` set obj \<Longrightarrow>
   map_of (obj @ [(nm, p)]) k = (if k = nm then Some p else map_of obj k)"
  by (induction obj) auto

lemma defineProperty_map_of:
  "map_of (defineProperty obj nm p) k = (if k = nm then Some p else map_of obj k)"
proof (cases "nm \<in> fst ` set obj")
  case True
  then have "map_of obj nm \<noteq> None"
    by (simp add: map_of_eq_None_iff)
  with True show ?thesis
    by (simp add: defineProperty_def replace_property_map_of)
next
  case False
  then show ?thesis
    by (simp add: defineProperty_def insert_index_map_of append_map_of split: option.splits
        del: map_of_append)
qed

lemma define_getters_accessors:
  "(k, Accessor e a p) \<in> set (define_getters entries instances provider obj) \<Longrightarrow>
   (k, Accessor e a p) \<in> set obj \<or> (a = instances \<and> p = provider \<and> e \<in> set entries)"
proof (induction entries arbitrary: obj)
  case Nil
  then show ?case by simp
next
  case (Cons x entries)
  from Cons.prems have
    "(k, Accessor e a p) \<in> set (defineProperty obj (entry_name x) (Accessor x instances provider))
     \<or> (a = instances \<and> p = provider \<and> e \<in> set entries)"
    by (auto dest: Cons.IH)
  then show ?case
    by (auto dest: defineProperty_set)
qed

lemma getServiceInstances_present:
  "at_SERVICES_INSTANCE_KEY (storage context) = Some a \<Longrightarrow>
   getServiceInstances context h = (a, context, h)"
  by (simp add: getServiceInstances_def)

lemma getServiceInstances_slot:
  "at_SERVICES_INSTANCE_KEY (storage (fst (snd (getServiceInstances context h)))) =
     Some (fst (getServiceInstances context h))"
  by (simp add: getServiceInstances_def Let_def split: option.splits)

lemma getServiceInstances_provider_slot:
  "at_SERVICE_PROVIDER_KEY (storage (fst (snd (getServiceInstances context h)))) =
     at_SERVICE_PROVIDER_KEY (storage context)"
  by (simp add: getServiceInstances_def Let_def split: option.splits)

lemma getServiceInstances_extra:
  "extra (fst (snd (getServiceInstances context h))) = extra context"
  by (simp add: getServiceInstances_def Let_def split: option.splits)

lemma existing_services_storage:
  "existing_services (context\<lparr>storage := s\<rparr>) = existing_services context"
  by (simp add: existing_services_def)

lemma getServiceInstances_existing_services:
  "existing_services (fst (snd (getServiceInstances context h))) = existing_services context"
  by (simp add: existing_services_def getServiceInstances_extra)

lemma resolveService_cases:
  "at_SERVICE_PROVIDER_KEY (storage context) = Some p \<Longrightarrow>
   resolveService ident context h =
     (case getServiceInstances context h of
        (a, context1, h1) \<Rightarrow>
          (fst (resolveServiceInternal ident a p h1), context1,
           snd (resolveServiceInternal ident a p h1)))"
proof -
  assume p: "at_SERVICE_PROVIDER_KEY (storage context) = Some p"
  obtain a c1 h1 where g: "getServiceInstances context h = (a, c1, h1)"
    by (cases "getServiceInstances context h")
  from getServiceInstances_provider_slot [of "context" h] g p
  have "at_SERVICE_PROVIDER_KEY (storage c1) = Some p"
    by simp
  then show ?thesis
    by (simp add: resolveService_def getServiceProvider_def g split: prod.splits)
qed

lemma resolveService_slot:
  "at_SERVICES_INSTANCE_KEY (storage (fst (snd (resolveService ident context h)))) =
     Some (fst (getServiceInstances context h))"
proof -
  obtain a c1 h1 where g: "getServiceInstances context h = (a, c1, h1)"
    by (cases "getServiceInstances context h")
  from getServiceInstances_slot [of "context" h] g
  have "at_SERVICES_INSTANCE_KEY (storage c1) = Some a"
    by simp
  then show ?thesis
    by (simp add: resolveService_def g split: prod.splits sum.splits)
qed

text \<open>What the adapter leaves behind when it returns, in any scope that carries a provider.\<close>

lemma withServices_cases:
  assumes "at_SERVICE_PROVIDER_KEY (storage context) = Some p"
  shows "withServices entries context h =
     (case getServiceInstances context h of
        (a, context1, h1) \<Rightarrow>
          (case spread (existing_services context) h1 of
             (Inl e, h2) \<Rightarrow> (Inl e, context1, h2)
           | (Inr copied, h2) \<Rightarrow>
               (Inr (),
                context1\<lparr>extra := Some
                  ((case extra context of None \<Rightarrow> \<lparr>services = None\<rparr> | Some ex0 \<Rightarrow> ex0)
                     \<lparr>services := Some (define_getters entries a p copied)\<rparr>)\<rparr>,
                h2)))"
proof -
  obtain a c1 h1 where g: "getServiceInstances context h = (a, c1, h1)"
    by (cases "getServiceInstances context h")
  from getServiceInstances_provider_slot [of "context" h] g assms
  have p1: "at_SERVICE_PROVIDER_KEY (storage c1) = Some p"
    by simp
  from getServiceInstances_extra [of "context" h] g have e1: "extra c1 = extra context"
    by simp
  from getServiceInstances_existing_services [of "context" h] g
  have s1: "existing_services c1 = existing_services context"
    by simp
  show ?thesis
    by (simp add: withServices_def getServiceProvider_def Let_def g p1 e1 s1
        split: prod.splits sum.splits)
qed

lemma withServices_installed:
  "withServices entries context h = (Inr (), context2, h2) \<Longrightarrow>
   \<exists>p. at_SERVICE_PROVIDER_KEY (storage context) = Some p"
proof (cases "at_SERVICE_PROVIDER_KEY (storage context)")
  case None
  assume run: "withServices entries context h = (Inr (), context2, h2)"
  obtain a c1 h1 where g: "getServiceInstances context h = (a, c1, h1)"
    by (cases "getServiceInstances context h")
  from getServiceInstances_provider_slot [of "context" h] g None
  have "at_SERVICE_PROVIDER_KEY (storage c1) = None"
    by simp
  with run g show ?thesis
    by (simp add: withServices_def getServiceProvider_def)
next
  case (Some p)
  then show ?thesis by simp
qed

lemma withServices_surface:
  assumes run: "withServices entries context h = (Inr (), context2, h2)"
    and p: "at_SERVICE_PROVIDER_KEY (storage context) = Some p"
  shows "\<exists>copied h1.
     spread (existing_services context) h1 = (Inr copied, h2) \<and>
     existing_services context2 =
       define_getters entries (fst (getServiceInstances context h)) p copied \<and>
     storage context2 = storage (fst (snd (getServiceInstances context h)))"
  using run
  by (auto simp: withServices_cases [OF p] existing_services_def
      split: prod.splits sum.splits)

lemma define_getters_other_names:
  "k \<notin> entry_name ` set entries \<Longrightarrow>
   map_of (define_getters entries instances provider obj) k = map_of obj k"
  by (induction entries arbitrary: obj) (simp_all add: defineProperty_map_of)

lemma define_getters_entry_names:
  "k \<in> entry_name ` set entries \<Longrightarrow>
   \<exists>e \<in> set entries. entry_name e = k \<and>
     map_of (define_getters entries instances provider obj) k =
       Some (Accessor e instances provider)"
proof (induction entries arbitrary: obj)
  case Nil
  then show ?case by simp
next
  case (Cons x entries)
  show ?case
  proof (cases "k \<in> entry_name ` set entries")
    case True
    from Cons.IH [OF True] show ?thesis
      by auto
  next
    case False
    with Cons.prems have "entry_name x = k"
      by auto
    with False show ?thesis
      by (auto simp: define_getters_other_names defineProperty_map_of)
  qed
qed

lemma existing_services_eq:
  "extra context = Some ex \<Longrightarrow> services ex = Some obj \<Longrightarrow> existing_services context = obj"
  by (simp add: existing_services_def)

text \<open>
  C9. In a scope whose storage has no instance map yet, \<^verbatim>\<open>getServiceInstances\<close> creates a new,
  empty map, stores its reference under the instances key and returns it, leaving every
  other map as it was; from then on every call in that scope, in whatever runtime, returns
  that same reference and changes neither the context nor the runtime. In any scope that
  carries a provider, whether or not the map exists already, a direct \<^verbatim>\<open>resolveService\<close>
  resolves against the map that \<^verbatim>\<open>getServiceInstances\<close> gives for the scope and leaves its
  reference in the storage; when \<^verbatim>\<open>withServices\<close> returns, the storage holds that reference,
  every entry has a getter under its name, every getter of the surface is closed over that
  map and the provider of the scope, and a later direct \<^verbatim>\<open>resolveService\<close> in the scope
  resolves against the same map.
\<close>

theorem getServiceInstances_one_cache_per_scope:
  "(at_SERVICES_INSTANCE_KEY (storage context) = None \<longrightarrow>
      (case getServiceInstances context h of
         (instances, context1, h1) \<Rightarrow>
           instances = next_map h
           \<and> instance_maps h1 instances = Map.empty
           \<and> at_SERVICES_INSTANCE_KEY (storage context1) = Some instances
           \<and> (\<forall>b. b \<noteq> instances \<longrightarrow> instance_maps h1 b = instance_maps h b)
           \<and> (\<forall>h'. getServiceInstances context1 h' = (instances, context1, h'))))
   \<and> (at_SERVICES_INSTANCE_KEY (storage context) = Some a \<longrightarrow>
        getServiceInstances context h = (a, context, h))
   \<and> (at_SERVICE_PROVIDER_KEY (storage context) = Some p \<longrightarrow>
        resolveService ident context h =
          (case getServiceInstances context h of
             (instances, context1, h1) \<Rightarrow>
               (fst (resolveServiceInternal ident instances p h1), context1,
                snd (resolveServiceInternal ident instances p h1))))
   \<and> at_SERVICES_INSTANCE_KEY (storage (fst (snd (resolveService ident context h)))) =
        Some (fst (getServiceInstances context h))
   \<and> (at_SERVICE_PROVIDER_KEY (storage context) = Some p \<and>
        withServices entries context h = (Inr (), context2, h2) \<and>
        extra context2 = Some ex \<and> services ex = Some obj \<longrightarrow>
        at_SERVICES_INSTANCE_KEY (storage context2) = Some (fst (getServiceInstances context h))
        \<and> ((nm, Accessor e a' p') \<in> set obj \<longrightarrow>
             a' = fst (getServiceInstances context h) \<and> p' = p)
        \<and> (e \<in> set entries \<longrightarrow>
             (\<exists>e' \<in> set entries. entry_name e' = entry_name e \<and>
                map_of obj (entry_name e) =
                  Some (Accessor e' (fst (getServiceInstances context h)) p)))
        \<and> (\<forall>h'. resolveService ident context2 h' =
             (fst (resolveServiceInternal ident (fst (getServiceInstances context h)) p h'),
              context2,
              snd (resolveServiceInternal ident (fst (getServiceInstances context h)) p h'))))"
proof (intro conjI)
  show "at_SERVICES_INSTANCE_KEY (storage context) = None \<longrightarrow>
      (case getServiceInstances context h of
         (instances, context1, h1) \<Rightarrow>
           instances = next_map h
           \<and> instance_maps h1 instances = Map.empty
           \<and> at_SERVICES_INSTANCE_KEY (storage context1) = Some instances
           \<and> (\<forall>b. b \<noteq> instances \<longrightarrow> instance_maps h1 b = instance_maps h b)
           \<and> (\<forall>h'. getServiceInstances context1 h' = (instances, context1, h')))"
    by (simp add: getServiceInstances_def Let_def)
  show "at_SERVICES_INSTANCE_KEY (storage context) = Some a \<longrightarrow>
        getServiceInstances context h = (a, context, h)"
    by (simp add: getServiceInstances_present)
  show "at_SERVICE_PROVIDER_KEY (storage context) = Some p \<longrightarrow>
        resolveService ident context h =
          (case getServiceInstances context h of
             (instances, context1, h1) \<Rightarrow>
               (fst (resolveServiceInternal ident instances p h1), context1,
                snd (resolveServiceInternal ident instances p h1)))"
    using resolveService_cases by blast
  show "at_SERVICES_INSTANCE_KEY (storage (fst (snd (resolveService ident context h)))) =
        Some (fst (getServiceInstances context h))"
    by (rule resolveService_slot)
  let ?a = "fst (getServiceInstances context h)"
  show "at_SERVICE_PROVIDER_KEY (storage context) = Some p \<and>
        withServices entries context h = (Inr (), context2, h2) \<and>
        extra context2 = Some ex \<and> services ex = Some obj \<longrightarrow>
        at_SERVICES_INSTANCE_KEY (storage context2) = Some ?a
        \<and> ((nm, Accessor e a' p') \<in> set obj \<longrightarrow> a' = ?a \<and> p' = p)
        \<and> (e \<in> set entries \<longrightarrow>
             (\<exists>e' \<in> set entries. entry_name e' = entry_name e \<and>
                map_of obj (entry_name e) = Some (Accessor e' ?a p)))
        \<and> (\<forall>h'. resolveService ident context2 h' =
             (fst (resolveServiceInternal ident ?a p h'), context2,
              snd (resolveServiceInternal ident ?a p h')))"
  proof
    assume a: "at_SERVICE_PROVIDER_KEY (storage context) = Some p \<and>
        withServices entries context h = (Inr (), context2, h2) \<and>
        extra context2 = Some ex \<and> services ex = Some obj"
    then obtain copied h1 where
      sp: "spread (existing_services context) h1 = (Inr copied, h2)" and
      ob: "existing_services context2 = define_getters entries ?a p copied" and
      st: "storage context2 = storage (fst (snd (getServiceInstances context h)))"
      using withServices_surface by blast
    from a have obj: "obj = define_getters entries ?a p copied"
      using ob by (simp add: existing_services_eq)
    have slot: "at_SERVICES_INSTANCE_KEY (storage context2) = Some ?a"
      using st getServiceInstances_slot [of "context" h] by simp
    have acc: "(nm, Accessor e a' p') \<in> set obj \<longrightarrow> a' = ?a \<and> p' = p"
      using obj spread_only_data [OF sp] define_getters_accessors by blast
    have ent: "e \<in> set entries \<longrightarrow>
        (\<exists>e' \<in> set entries. entry_name e' = entry_name e \<and>
           map_of obj (entry_name e) = Some (Accessor e' ?a p))"
      using obj define_getters_entry_names [of "entry_name e" entries ?a p copied] by auto
    have prov: "at_SERVICE_PROVIDER_KEY (storage context2) = Some p"
      using a st getServiceInstances_provider_slot [of "context" h] by simp
    have res: "\<forall>h'. resolveService ident context2 h' =
        (fst (resolveServiceInternal ident ?a p h'), context2,
         snd (resolveServiceInternal ident ?a p h'))"
      by (simp add: resolveService_cases [OF prov] getServiceInstances_present [OF slot])
    from slot acc ent res show
      "at_SERVICES_INSTANCE_KEY (storage context2) = Some ?a
        \<and> ((nm, Accessor e a' p') \<in> set obj \<longrightarrow> a' = ?a \<and> p' = p)
        \<and> (e \<in> set entries \<longrightarrow>
             (\<exists>e' \<in> set entries. entry_name e' = entry_name e \<and>
                map_of obj (entry_name e) = Some (Accessor e' ?a p)))
        \<and> (\<forall>h'. resolveService ident context2 h' =
             (fst (resolveServiceInternal ident ?a p h'), context2,
              snd (resolveServiceInternal ident ?a p h')))"
      by blast
  qed
qed

theorem getServiceInstances_one_cache_per_scope_witness:
  "fst (getServiceInstances (withServiceProvider 0 (empty_context :: nat RequestContext))
          (provide_at 0 (CatalogId (catalog_entry ''counter'')) counter_factory
             (initial_runtime 0))) = 0
   \<and> withServices [catalog_entry ''counter'']
        (withServiceProvider 0 (empty_context :: nat RequestContext))
        (provide_at 0 (CatalogId (catalog_entry ''counter'')) counter_factory
           (initial_runtime 0)) =
       (Inr (),
        \<lparr>storage = \<lparr>at_SERVICE_PROVIDER_KEY = Some 0, at_SERVICES_INSTANCE_KEY = Some 0\<rparr>,
         extra = Some
           \<lparr>services = Some [(''counter'', Accessor (catalog_entry ''counter'') 0 0)]\<rparr>\<rparr>,
        (provide_at 0 (CatalogId (catalog_entry ''counter'')) counter_factory
           (initial_runtime 0))\<lparr>next_map := 1\<rparr>)
   \<and> resolveService (CatalogId (catalog_entry ''counter''))
        \<lparr>storage = \<lparr>at_SERVICE_PROVIDER_KEY = Some 0, at_SERVICES_INSTANCE_KEY = Some 0\<rparr>,
         extra = Some
           \<lparr>services = Some [(''counter'', Accessor (catalog_entry ''counter'') 0 0)]\<rparr>\<rparr>
        ((provide_at 0 (CatalogId (catalog_entry ''counter'')) counter_factory
           (initial_runtime 0))\<lparr>next_map := 1\<rparr>) =
       (Inr 1,
        \<lparr>storage = \<lparr>at_SERVICE_PROVIDER_KEY = Some 0, at_SERVICES_INSTANCE_KEY = Some 0\<rparr>,
         extra = Some
           \<lparr>services = Some [(''counter'', Accessor (catalog_entry ''counter'') 0 0)]\<rparr>\<rparr>,
        (provide_at 0 (CatalogId (catalog_entry ''counter'')) counter_factory
           (initial_runtime 0))
          \<lparr>instance_maps := (\<lambda>_. Map.empty)(0 := [''counter'' \<mapsto> 1]), next_map := 1,
            world := 1, calls := [(0, ''counter'')]\<rparr>)
   \<and> read_service [(''counter'', Accessor (catalog_entry ''counter'') 0 0)] ''counter''
        ((provide_at 0 (CatalogId (catalog_entry ''counter'')) counter_factory
           (initial_runtime 0))
          \<lparr>instance_maps := (\<lambda>_. Map.empty)(0 := [''counter'' \<mapsto> 1]), next_map := 1,
            world := 1, calls := [(0, ''counter'')]\<rparr>) =
       (Inr (Some 1),
        (provide_at 0 (CatalogId (catalog_entry ''counter'')) counter_factory
           (initial_runtime 0))
          \<lparr>instance_maps := (\<lambda>_. Map.empty)(0 := [''counter'' \<mapsto> 1]), next_map := 1,
            world := 1, calls := [(0, ''counter'')]\<rparr>)
   \<and> fst (resolveService (CatalogId (catalog_entry ''counter''))
        (withServiceProvider 0 (empty_context :: nat RequestContext))
        (provide_at 0 (CatalogId (catalog_entry ''counter'')) counter_factory
           (initial_runtime 0))) = Inr 1"
proof -
  let ?e = "catalog_entry ''counter'' :: nat CatalogEntry"
  let ?c0 = "withServiceProvider 0 (empty_context :: nat RequestContext)"
  let ?h0 = "provide_at 0 (CatalogId ?e) counter_factory (initial_runtime 0) :: (nat, nat) runtime"
  let ?obj = "[(''counter'', Accessor ?e 0 0)] :: nat services_object"
  let ?c2 = "\<lparr>storage = \<lparr>at_SERVICE_PROVIDER_KEY = Some 0, at_SERVICES_INSTANCE_KEY = Some 0\<rparr>,
    extra = Some \<lparr>services = Some ?obj\<rparr>\<rparr> :: nat RequestContext"
  let ?h2 = "?h0\<lparr>next_map := 1\<rparr>"
  let ?h3 = "?h0\<lparr>instance_maps := (\<lambda>_. Map.empty)(0 := [''counter'' \<mapsto> 1]), next_map := 1,
    world := 1, calls := [(0, ''counter'')]\<rparr>"
  have c0: "at_SERVICES_INSTANCE_KEY (storage ?c0) = None"
    "at_SERVICE_PROVIDER_KEY (storage ?c0) = Some 0"
    by (simp_all add: withServiceProvider_def empty_context_def)
  have c2: "at_SERVICES_INSTANCE_KEY (storage ?c2) = Some 0" "extra ?c2 = Some \<lparr>services = Some ?obj\<rparr>"
    by simp_all
  have g: "getServiceInstances ?c0 ?h0 =
      (0, \<lparr>storage = \<lparr>at_SERVICE_PROVIDER_KEY = Some 0, at_SERVICES_INSTANCE_KEY = Some 0\<rparr>,
            extra = None\<rparr>, ?h2)"
    by (simp add: getServiceInstances_def withServiceProvider_def empty_context_def run_defs
        fun_upd_idem_iff)
  have w: "withServices [?e] ?c0 ?h0 = (Inr (), ?c2, ?h2)"
    by (simp add: adapter_defs run_defs empty_context_def fun_upd_idem_iff)
  have r: "resolveServiceInternal (CatalogId ?e) 0 0 ?h2 = (Inr 1, ?h3)"
    by (simp add: run_defs)
  have r0: "fst (resolveServiceInternal (CatalogId ?e) 0 0 ?h2) = Inr 1"
    using r by simp
  have rd: "read_service ?obj ''counter'' ?h3 = (Inr (Some 1), ?h3)"
    by (simp add: read_service_def get_property_def run_defs)
  note scope = getServiceInstances_one_cache_per_scope
         [of ?c0 ?h0 0 0 "CatalogId ?e" "[?e]" ?c2 ?h2 "\<lparr>services = Some ?obj\<rparr>" ?obj
             "''counter''" ?e 0 0]
  have first: "fst (getServiceInstances ?c0 ?h0) = 0"
    using g by simp
  from scope have "at_SERVICE_PROVIDER_KEY (storage ?c0) = Some 0 \<longrightarrow>
      resolveService (CatalogId ?e) ?c0 ?h0 =
        (case getServiceInstances ?c0 ?h0 of
           (instances, context1, h1) \<Rightarrow>
             (fst (resolveServiceInternal (CatalogId ?e) instances 0 h1), context1,
              snd (resolveServiceInternal (CatalogId ?e) instances 0 h1)))"
    by blast
  with c0 have "resolveService (CatalogId ?e) ?c0 ?h0 =
        (case getServiceInstances ?c0 ?h0 of
           (instances, context1, h1) \<Rightarrow>
             (fst (resolveServiceInternal (CatalogId ?e) instances 0 h1), context1,
              snd (resolveServiceInternal (CatalogId ?e) instances 0 h1)))"
    by blast
  then have "fst (resolveService (CatalogId ?e) ?c0 ?h0) =
      fst (resolveServiceInternal (CatalogId ?e) 0 0 ?h2)"
    by (simp only: g prod.case fst_conv)
  then have fresh: "fst (resolveService (CatalogId ?e) ?c0 ?h0) = Inr 1"
    by (simp only: r0)
  have hyp: "at_SERVICE_PROVIDER_KEY (storage ?c0) = Some 0 \<and>
      withServices [?e] ?c0 ?h0 = (Inr (), ?c2, ?h2) \<and>
      extra ?c2 = Some \<lparr>services = Some ?obj\<rparr> \<and>
      services \<lparr>services = Some ?obj\<rparr> = Some ?obj"
    using c0 w by simp
  from scope have "at_SERVICE_PROVIDER_KEY (storage ?c0) = Some 0 \<and>
      withServices [?e] ?c0 ?h0 = (Inr (), ?c2, ?h2) \<and>
      extra ?c2 = Some \<lparr>services = Some ?obj\<rparr> \<and>
      services \<lparr>services = Some ?obj\<rparr> = Some ?obj \<longrightarrow>
      (\<forall>h'. resolveService (CatalogId ?e) ?c2 h' =
         (fst (resolveServiceInternal (CatalogId ?e) (fst (getServiceInstances ?c0 ?h0)) 0 h'),
          ?c2,
          snd (resolveServiceInternal (CatalogId ?e) (fst (getServiceInstances ?c0 ?h0)) 0 h')))"
    by blast
  with hyp have "resolveService (CatalogId ?e) ?c2 ?h2 =
      (fst (resolveServiceInternal (CatalogId ?e) (fst (getServiceInstances ?c0 ?h0)) 0 ?h2),
       ?c2,
       snd (resolveServiceInternal (CatalogId ?e) (fst (getServiceInstances ?c0 ?h0)) 0 ?h2))"
    by blast
  then have shared: "resolveService (CatalogId ?e) ?c2 ?h2 = (Inr 1, ?c2, ?h3)"
    by (simp only: first r fst_conv snd_conv)
  from first w shared rd fresh show ?thesis
    by simp
qed

section \<open>Memoization\<close>

lemmas general_defs =
  resolveServiceInternal_general_def invoke_and_store_general_def getFactory_general_def
  provide_at_general_def provide_general_def general_initial_def lift_factory_def
  failing_factory_def getServiceInstances_general_def resolveService_general_def


































text \<open>
  A factory that calls back into the resolver can run twice and have the value of its
  first run replaced, all in one resolution: \<open>reentrant_factory\<close> satisfies the equation of
  its source text, and one resolution of its entry on an empty instance map records two
  calls that returned and leaves the value of the outer call in the map.
\<close>

lemma reentrant_factory_calls_resolver:
  assumes "heap_world s = 0"
    and "general_providers rt p = [''svc'' \<mapsto> reentrant_factory a]"
  shows "reentrant_factory a s =
     (Inr 2,
      heap_of (snd (resolveServiceInternal_general (CatalogId (catalog_entry ''svc'')) a p
                 (rt\<lparr>heap_of := s\<lparr>heap_world := 1\<rparr>\<rparr>))))"
  using assms
  by (simp add: reentrant_factory_def resolveServiceInternal_general_def
      invoke_and_store_general_def getFactory_general_def catalog_entry_def named_entry_def
      serviceOf_def composite_key_def any_route_def Let_def split: option.splits)

lemma reentrant_factory_runs_twice:
  "resolveServiceInternal_general (CatalogId (catalog_entry ''svc'')) 0 0
     (provide_at_general 0 (CatalogId (catalog_entry ''svc'')) (reentrant_factory 0)
        (general_initial 0)) =
   (Inr 2,
    (provide_at_general 0 (CatalogId (catalog_entry ''svc'')) (reentrant_factory 0)
        (general_initial 0))
      \<lparr>heap_of :=
         \<lparr>heap_instance_maps = (\<lambda>_. Map.empty)(0 := [''svc'' \<mapsto> 2]), heap_next_map = 0,
          heap_world = 1, heap_calls = [(0, ''svc'', True), (0, ''svc'', True)]\<rparr>\<rparr>)"
  by (simp add: general_defs reentrant_factory_def catalog_entry_def named_entry_def
      serviceOf_def composite_key_def any_route_def Let_def)

section \<open>Unregistered services\<close>







section \<open>Lookup precedence\<close>

text \<open>
  C2 (as amended). \<^verbatim>\<open>getFactory\<close> returns the factory stored under the composite key
  \<^verbatim>\<open>method:patternSource:name\<close> when there is one, and otherwise whatever is stored under
  the bare name, a factory or nothing. When a route-specific and a catalog factory are
  registered for the same name, a resolution by the route that is not cached returns the
  product of the route-specific factory, and a resolution by a catalog entry of that name
  that is not cached returns the product of the catalog factory provided no factory is
  stored under the wildcard key \<^verbatim>\<open>ANY::name\<close>.
\<close>

theorem getFactory_route_first_then_global:
  "composite_key route nm = route_method route @ '':'' @ source (pattern route) @ '':'' @ nm
   \<and> (factories this (composite_key route nm) = Some f \<longrightarrow> getFactory this route nm = Some f)
   \<and> (factories this (composite_key route nm) = None \<longrightarrow>
        getFactory this route nm = factories this nm)
   \<and> (factories (providers h p) (composite_key route nm) = Some fr \<and>
        factories (providers h p) nm = Some fc \<longrightarrow>
        (instance_maps h a (composite_key route nm) = None \<longrightarrow>
           fst (resolveServiceInternal (RouteId route nm) a p h) = Inr (fst (fr (world h))))
        \<and> (instance_maps h a nm = None \<and> entry_name ce = nm \<and>
             factories (providers h p) (composite_key any_route nm) = None \<longrightarrow>
             fst (resolveServiceInternal (CatalogId ce) a p h) = Inr (fst (fc (world h)))))"
proof (intro conjI)
  show "composite_key route nm = route_method route @ '':'' @ source (pattern route) @ '':'' @ nm"
    by (simp only: composite_key_def)
qed (auto simp: getFactory_cases resolveServiceInternal_cases invoke_and_store_fst)

theorem getFactory_route_first_then_global_witness:
  "getFactory
      (provide (CatalogId (catalog_entry ''svc'')) (constant_factory 2)
         (provide (RouteId (posts_route ''POST'') ''svc'') (constant_factory 1)
            (new_ServiceProvider None :: (nat, unit) ServiceProvider)))
      (posts_route ''POST'') ''svc'' = Some (constant_factory 1)
   \<and> getFactory
      (provide (CatalogId (catalog_entry ''svc'')) (constant_factory 2)
         (provide (RouteId (posts_route ''POST'') ''svc'') (constant_factory 1)
            (new_ServiceProvider None :: (nat, unit) ServiceProvider)))
      (posts_route ''GET'') ''svc'' = Some (constant_factory 2)
   \<and> fst (resolveServiceInternal (RouteId (posts_route ''POST'') ''svc'') 0 0
        (provide_at 0 (CatalogId (catalog_entry ''svc'')) (constant_factory 2)
           (provide_at 0 (RouteId (posts_route ''POST'') ''svc'') (constant_factory 1)
              (initial_runtime () :: (nat, unit) runtime)))) = Inr 1
   \<and> fst (resolveServiceInternal (CatalogId (catalog_entry ''svc'')) 0 0
        (provide_at 0 (CatalogId (catalog_entry ''svc'')) (constant_factory 2)
           (provide_at 0 (RouteId (posts_route ''POST'') ''svc'') (constant_factory 1)
              (initial_runtime () :: (nat, unit) runtime)))) = Inr 2"
proof -
  let ?r = "RouteId (posts_route ''POST'') ''svc'' :: nat ServiceIdentifier"
  let ?c = "CatalogId (catalog_entry ''svc'') :: nat ServiceIdentifier"
  let ?f1 = "constant_factory 1 :: (nat, unit) ServiceFactory"
  let ?f2 = "constant_factory 2 :: (nat, unit) ServiceFactory"
  let ?prov = "provide ?c ?f2 (provide ?r ?f1 (new_ServiceProvider None))"
  let ?h = "provide_at 0 ?c ?f2 (provide_at 0 ?r ?f1 (initial_runtime ()))"
  have prov: "providers ?h 0 = ?prov"
    by (simp add: provide_at_def initial_runtime_def)
  have k1: "factories ?prov (composite_key (posts_route ''POST'') ''svc'') = Some ?f1"
    by (simp add: run_defs posts_route_def)
  have k2: "factories ?prov (composite_key (posts_route ''GET'') ''svc'') = None"
    by (simp add: run_defs posts_route_def)
  have k3: "factories ?prov ''svc'' = Some ?f2"
    by (simp add: run_defs posts_route_def)
  have k4: "factories ?prov (composite_key any_route ''svc'') = None"
    by (simp add: run_defs posts_route_def)
  have m: "instance_maps ?h 0 (composite_key (posts_route ''POST'') ''svc'') = None"
    "instance_maps ?h 0 ''svc'' = None" "entry_name (catalog_entry ''svc'') = ''svc''"
    by (simp_all add: run_defs)
  from getFactory_route_first_then_global
         [of "posts_route ''POST''" "''svc''" ?prov ?f1 ?h 0 ?f1 ?f2 0 "catalog_entry ''svc''"]
       getFactory_route_first_then_global [of "posts_route ''GET''" "''svc''" ?prov]
       prov k1 k2 k3 k4 m
  show ?thesis
    by (simp add: run_defs posts_route_def)
qed

text \<open>
  The claim C2 as stated fails: with a route-specific factory (product 1) and a catalog
  factory (product 2) registered for \<^verbatim>\<open>svc\<close>, and a third factory (product 3) registered
  under the catalog name \<^verbatim>\<open>ANY::svc\<close>, resolving the catalog entry \<^verbatim>\<open>svc\<close> returns 3, not the
  product of the catalog factory of \<^verbatim>\<open>svc\<close>.
\<close>

theorem wildcard_key_wins_over_catalog_registration:
  "factories
      (providers
         (run_steps
            [Register (RouteId (posts_route ''POST'') ''svc'') (constant_factory 1),
             Register (CatalogId (catalog_entry ''svc'')) (constant_factory 2),
             Register (CatalogId (catalog_entry ''ANY::svc'')) (constant_factory 3)] 0 0
            (initial_runtime () :: (nat, unit) runtime)) 0)
      (composite_key (posts_route ''POST'') ''svc'') = Some (constant_factory 1)
   \<and> factories
      (providers
         (run_steps
            [Register (RouteId (posts_route ''POST'') ''svc'') (constant_factory 1),
             Register (CatalogId (catalog_entry ''svc'')) (constant_factory 2),
             Register (CatalogId (catalog_entry ''ANY::svc'')) (constant_factory 3)] 0 0
            (initial_runtime () :: (nat, unit) runtime)) 0)
      ''svc'' = Some (constant_factory 2)
   \<and> fst (resolveServiceInternal (CatalogId (catalog_entry ''svc'')) 0 0
         (run_steps
            [Register (RouteId (posts_route ''POST'') ''svc'') (constant_factory 1),
             Register (CatalogId (catalog_entry ''svc'')) (constant_factory 2),
             Register (CatalogId (catalog_entry ''ANY::svc'')) (constant_factory 3)] 0 0
            (initial_runtime () :: (nat, unit) runtime))) = Inr 3"
  by (simp add: run_defs posts_route_def)

text \<open>
  The same happens with two registrations only, when the route-specific one is made for a
  route whose method is \<^verbatim>\<open>ANY\<close> and whose pattern source is empty: the catalog path then
  returns the product of the route-specific factory.
\<close>

lemma wildcard_route_registration_wins_on_catalog_path:
  "fst (resolveServiceInternal (CatalogId (catalog_entry ''svc'')) 0 0
     (provide_at 0 (CatalogId (catalog_entry ''svc'')) (constant_factory 2)
        (provide_at 0 (RouteId any_route ''svc'') (constant_factory 1)
           (initial_runtime () :: (nat, unit) runtime)))) = Inr 1"
  by (simp add: run_defs)

section \<open>The catalog path\<close>

lemma provide_all_route_registrations_elsewhere:
  assumes "\<forall>(ident, f) \<in> set regs. \<not> isCatalogEntry ident \<longrightarrow> canonical_key ident \<noteq> k"
    and "factories this k = factories other k"
  shows "factories (provide_all regs this) k =
     factories (provide_all (catalog_registrations regs) other) k"
  using assms
proof (induction regs arbitrary: this other)
  case Nil
  then show ?case by (simp add: catalog_registrations_def)
next
  case (Cons r regs)
  obtain ident f where r: "r = (ident, f)" by (cases r)
  show ?case
  proof (cases "isCatalogEntry ident")
    case True
    have "factories (provide ident f this) k = factories (provide ident f other) k"
      using Cons.prems(2) by (simp add: provide_factories)
    with Cons.prems(1) True r show ?thesis
      using Cons.IH [of "provide ident f this" "provide ident f other"]
      by (simp add: catalog_registrations_def)
  next
    case False
    with Cons.prems(1) r have "canonical_key ident \<noteq> k"
      by simp
    then have "factories (provide ident f this) k = factories other k"
      using Cons.prems(2) by (simp add: provide_factories)
    with Cons.prems(1) False r show ?thesis
      using Cons.IH [of "provide ident f this" other]
      by (simp add: catalog_registrations_def)
  qed
qed

text \<open>
  C3 (as amended). On the catalog-entry path the registry is queried with the route
  (\<^verbatim>\<open>ANY\<close>, empty pattern): the factory stored under \<^verbatim>\<open>ANY::name\<close> is returned when there is
  one, and otherwise whatever is stored under the bare name. When no registration made
  through the route overload has a composite key equal to \<^verbatim>\<open>name\<close> or to \<^verbatim>\<open>ANY::name\<close>, the
  result is the one the catalog registrations alone would give, so that no factory
  registered through the route overload is returned.
\<close>

theorem catalog_path_queries_wildcard_then_bare_name:
  "getFactory this any_route nm =
     (case factories this (''ANY::'' @ nm) of
        None \<Rightarrow> factories this nm
      | Some f \<Rightarrow> Some f)
   \<and> ((\<forall>(ident, f) \<in> set regs.
          \<not> isCatalogEntry ident \<longrightarrow>
            canonical_key ident \<noteq> nm \<and> canonical_key ident \<noteq> ''ANY::'' @ nm) \<longrightarrow>
        getFactory (provide_all regs this) any_route nm =
        getFactory (provide_all (catalog_registrations regs) this) any_route nm)"
proof (intro conjI impI)
  show "getFactory this any_route nm =
     (case factories this (''ANY::'' @ nm) of
        None \<Rightarrow> factories this nm
      | Some f \<Rightarrow> Some f)"
    by (simp only: getFactory_cases any_route_key)
next
  let ?cat = "catalog_registrations regs"
  assume a: "\<forall>(ident, f) \<in> set regs.
          \<not> isCatalogEntry ident \<longrightarrow>
            canonical_key ident \<noteq> nm \<and> canonical_key ident \<noteq> ''ANY::'' @ nm"
  then have "\<forall>(ident, f) \<in> set regs. \<not> isCatalogEntry ident \<longrightarrow> canonical_key ident \<noteq> nm"
    by auto
  then have bare: "factories (provide_all regs this) nm = factories (provide_all ?cat this) nm"
    by (rule provide_all_route_registrations_elsewhere) simp
  from a have
    "\<forall>(ident, f) \<in> set regs. \<not> isCatalogEntry ident \<longrightarrow> canonical_key ident \<noteq> ''ANY::'' @ nm"
    by auto
  then have "factories (provide_all regs this) (''ANY::'' @ nm) =
      factories (provide_all ?cat this) (''ANY::'' @ nm)"
    by (rule provide_all_route_registrations_elsewhere) simp
  with bare show "getFactory (provide_all regs this) any_route nm =
        getFactory (provide_all ?cat this) any_route nm"
    by (simp only: getFactory_cases any_route_key)
qed

theorem catalog_path_queries_wildcard_then_bare_name_witness:
  "getFactory
      (provide_all
         [(RouteId (posts_route ''POST'') ''svc'', constant_factory 1),
          (CatalogId (catalog_entry ''svc''), constant_factory 2)]
         (new_ServiceProvider None :: (nat, unit) ServiceProvider))
      any_route ''svc'' = Some (constant_factory 2)"
  using catalog_path_queries_wildcard_then_bare_name
    [of "new_ServiceProvider None :: (nat, unit) ServiceProvider" "''svc''"
        "[(RouteId (posts_route ''POST'') ''svc'', constant_factory 1),
          (CatalogId (catalog_entry ''svc''), constant_factory 2)]"]
  by (simp add: run_defs posts_route_def catalog_registrations_def)

text \<open>
  The claim C3 as stated fails: the only registration is made through the route overload,
  for the route (\<^verbatim>\<open>ANY\<close>, \<^verbatim>\<open>/posts\<close>) and the name \<^verbatim>\<open>svc\<close>; the catalog entry named
  \<^verbatim>\<open>ANY:/posts:svc\<close> is resolved to the product of that factory, found by the bare-name
  fallback.
\<close>

theorem route_registration_returned_on_catalog_path:
  "catalog_registrations
      [(RouteId (posts_route ''ANY'') ''svc'', constant_factory 1 :: (nat, unit) ServiceFactory)] = []
   \<and> lookup_for (CatalogId (catalog_entry ''ANY:/posts:svc''))
        (provide_all [(RouteId (posts_route ''ANY'') ''svc'', constant_factory 1)]
           (new_ServiceProvider None :: (nat, unit) ServiceProvider)) = Some (constant_factory 1)
   \<and> fst (resolveServiceInternal (CatalogId (catalog_entry ''ANY:/posts:svc'')) 0 0
        (provide_at 0 (RouteId (posts_route ''ANY'') ''svc'') (constant_factory 1)
           (initial_runtime () :: (nat, unit) runtime))) = Inr 1"
  by (simp add: run_defs posts_route_def catalog_registrations_def)

section \<open>Registration\<close>

text \<open>
  C7 (as amended). \<^verbatim>\<open>provide\<close> stores the factory under the canonical key of the identifier
  whatever was stored there before, keeps every other key and the catalog field of the
  provider, and returns nothing but the updated provider; on the runtime, only the factory
  map of that provider object changes. After it, a resolution of a route identifier that is
  not cached returns the product of the new factory; so does a resolution of a catalog
  entry provided no factory is stored under the wildcard key \<^verbatim>\<open>ANY::name\<close>.
\<close>

theorem provide_overwrites_one_key:
  "canonical_key (RouteId route nm) =
     route_method route @ '':'' @ source (pattern route) @ '':'' @ nm
   \<and> canonical_key (CatalogId ce) = entry_name ce
   \<and> factories (provide ident f this) (canonical_key ident) = Some f
   \<and> (k \<noteq> canonical_key ident \<longrightarrow> factories (provide ident f this) k = factories this k)
   \<and> catalog_of (provide ident f this) = catalog_of this
   \<and> providers (provide_at p ident f h) p = provide ident f (providers h p)
   \<and> (q \<noteq> p \<longrightarrow> providers (provide_at p ident f h) q = providers h q)
   \<and> instance_maps (provide_at p ident f h) = instance_maps h
   \<and> next_map (provide_at p ident f h) = next_map h
   \<and> world (provide_at p ident f h) = world h
   \<and> calls (provide_at p ident f h) = calls h
   \<and> (instance_maps h a (canonical_key ident) = None \<and>
        (isCatalogEntry ident \<longrightarrow>
           factories (providers h p) (composite_key any_route (canonical_key ident)) = None) \<longrightarrow>
        fst (resolveServiceInternal ident a p (provide_at p ident f h)) = Inr (fst (f (world h))))"
proof (intro conjI impI)
  assume a: "instance_maps h a (canonical_key ident) = None \<and>
        (isCatalogEntry ident \<longrightarrow>
           factories (providers h p) (composite_key any_route (canonical_key ident)) = None)"
  have "lookup_for ident (provide ident f (providers h p)) = Some f"
  proof (cases ident)
    case (CatalogId ce)
    with a show ?thesis
      by (simp add: getFactory_cases provide_factories any_route_key)
  next
    case (RouteId route nm)
    then show ?thesis
      by (simp add: getFactory_cases provide_factories)
  qed
  with a show "fst (resolveServiceInternal ident a p (provide_at p ident f h)) =
      Inr (fst (f (world h)))"
    by (simp add: resolveServiceInternal_cases invoke_and_store_fst provide_at_def)
qed (simp_all add: provide_factories provide_catalog_of provide_at_def composite_key_def)

theorem provide_overwrites_one_key_witness:
  "factories
      (provide (RouteId (posts_route ''ANY'') ''myService'') (constant_factory 2)
         (provide (RouteId (posts_route ''ANY'') ''myService'') (constant_factory 1)
            (new_ServiceProvider None :: (nat, unit) ServiceProvider)))
      ''ANY:/posts:myService'' = Some (constant_factory 2)
   \<and> factories
      (provide (RouteId (posts_route ''ANY'') ''myService'') (constant_factory 2)
         (provide (RouteId (posts_route ''ANY'') ''other'') (constant_factory 1)
            (new_ServiceProvider None :: (nat, unit) ServiceProvider)))
      ''ANY:/posts:other'' = Some (constant_factory 1)
   \<and> fst (resolveServiceInternal (CatalogId (catalog_entry ''svc'')) 0 0
        (provide_at 0 (CatalogId (catalog_entry ''svc'')) (constant_factory 2)
           (provide_at 0 (CatalogId (catalog_entry ''svc'')) (constant_factory 1)
              (initial_runtime () :: (nat, unit) runtime)))) = Inr 2"
proof -
  let ?r = "RouteId (posts_route ''ANY'') ''myService'' :: nat ServiceIdentifier"
  let ?o = "RouteId (posts_route ''ANY'') ''other'' :: nat ServiceIdentifier"
  let ?c = "CatalogId (catalog_entry ''svc'') :: nat ServiceIdentifier"
  let ?f1 = "constant_factory 1 :: (nat, unit) ServiceFactory"
  let ?f2 = "constant_factory 2 :: (nat, unit) ServiceFactory"
  let ?h1 = "provide_at 0 ?c ?f1 (initial_runtime ())"
  have k: "''ANY:/posts:other'' \<noteq> canonical_key ?r"
    by (simp add: composite_key_def posts_route_def)
  have m: "instance_maps ?h1 0 (canonical_key ?c) = None"
    "factories (providers ?h1 0) (composite_key any_route (canonical_key ?c)) = None"
    by (simp_all add: run_defs)
  from provide_overwrites_one_key [of _ _ _ ?r ?f2 "provide ?r ?f1 (new_ServiceProvider None)"]
       provide_overwrites_one_key
         [of _ _ _ ?r ?f2 "provide ?o ?f1 (new_ServiceProvider None)" "''ANY:/posts:other''"] k
       provide_overwrites_one_key [of _ _ _ ?c ?f2 _ _ 0 ?h1 1 0] m
  show ?thesis
    by (simp add: run_defs posts_route_def)
qed

text \<open>
  The claim C7 as stated fails: a factory (product 3) is registered under the catalog name
  \<^verbatim>\<open>ANY::svc\<close>; the catalog entry \<^verbatim>\<open>svc\<close> is registered (product 1) and registered again
  (product 2); the resolution of \<^verbatim>\<open>svc\<close>, which is not cached, returns 3 and not the product
  of the new factory.
\<close>

theorem reregistered_catalog_factory_not_used:
  "instance_maps
      (run_steps
         [Register (CatalogId (catalog_entry ''ANY::svc'')) (constant_factory 3),
          Register (CatalogId (catalog_entry ''svc'')) (constant_factory 1),
          Register (CatalogId (catalog_entry ''svc'')) (constant_factory 2)] 0 0
         (initial_runtime () :: (nat, unit) runtime)) 0 ''svc'' = None
   \<and> fst (resolveServiceInternal (CatalogId (catalog_entry ''svc'')) 0 0
         (run_steps
            [Register (CatalogId (catalog_entry ''ANY::svc'')) (constant_factory 3),
             Register (CatalogId (catalog_entry ''svc'')) (constant_factory 1),
             Register (CatalogId (catalog_entry ''svc'')) (constant_factory 2)] 0 0
            (initial_runtime () :: (nat, unit) runtime))) = Inr 3"
  by (simp add: run_defs)

section \<open>The adapter and laziness\<close>

lemma withServices_without_existing_services:
  "existing_services context = [] \<Longrightarrow>
   calls (snd (snd (withServices entries context h))) = calls h \<and>
   world (snd (snd (withServices entries context h))) = world h"
  by (simp add: withServices_def getServiceInstances_def getServiceProvider_def Let_def
      existing_services_storage split: option.splits sum.splits prod.splits)

text \<open>
  C4. The claim says that applying the adapter runs no factory. The code breaks it on the
  merge path: \<^verbatim>\<open>{ ...existingServices }\<close> reads every property of the earlier surface, which
  runs the getters. With a counting factory registered for \<^verbatim>\<open>a\<close>, one application of the
  adapter for \<^verbatim>\<open>a\<close> runs no factory; a second application, for \<^verbatim>\<open>b\<close>, runs the factory of
  \<^verbatim>\<open>a\<close> although no handler has read a property, and leaves \<^verbatim>\<open>a\<close> as a data property next to
  the getter of \<^verbatim>\<open>b\<close>. With no factory registered for \<^verbatim>\<open>a\<close>, the second application throws.
\<close>

theorem second_withServices_runs_earlier_getters:
  "calls (snd (snd (withServices_chain [[catalog_entry ''a'']]
      (withServiceProvider 0 empty_context)
      (provide_at 0 (CatalogId (catalog_entry ''a'')) counter_factory (initial_runtime 0))))) = []
   \<and> calls (snd (snd (withServices_chain [[catalog_entry ''a''], [catalog_entry ''b'']]
      (withServiceProvider 0 empty_context)
      (provide_at 0 (CatalogId (catalog_entry ''a'')) counter_factory (initial_runtime 0))))) =
       [(0, ''a'')]
   \<and> world (snd (snd (withServices_chain [[catalog_entry ''a''], [catalog_entry ''b'']]
      (withServiceProvider 0 empty_context)
      (provide_at 0 (CatalogId (catalog_entry ''a'')) counter_factory (initial_runtime 0))))) = 1
   \<and> extra (fst (snd (withServices_chain [[catalog_entry ''a''], [catalog_entry ''b'']]
      (withServiceProvider 0 empty_context)
      (provide_at 0 (CatalogId (catalog_entry ''a'')) counter_factory (initial_runtime 0))))) =
       Some \<lparr>services = Some [(''a'', DataProperty 1), (''b'', Accessor (catalog_entry ''b'') 0 0)]\<rparr>
   \<and> fst (withServices_chain [[catalog_entry ''a''], [catalog_entry ''b'']]
      (withServiceProvider 0 (empty_context :: nat RequestContext))
      (initial_runtime 0 :: (nat, nat) runtime)) = Inl (Error (not_registered_message ''a''))"
  by (simp add: adapter_defs run_defs)

section \<open>What the adapter attaches\<close>

text \<open>
  When the adapter returns, the surface has the names of the earlier surface and the names
  of the entries. Reading a property that a getter backs is a resolution of its entry
  against the captured instance map and provider; a name never listed reads as
  \<^verbatim>\<open>undefined\<close>.
\<close>

lemma spread_keeps_names:
  "spread obj h = (Inr copied, h') \<Longrightarrow> map fst copied = map fst obj"
proof (induction obj arbitrary: h copied h')
  case Nil
  then show ?case by simp
next
  case (Cons x obj)
  obtain k q where x: "x = (k, q)" by (cases x)
  from Cons.prems x show ?case
    by (auto split: prod.splits sum.splits dest: Cons.IH)
qed

lemma define_getters_names:
  "fst ` set (define_getters entries instances provider obj) =
     fst ` set obj \<union> entry_name ` set entries"
  by (induction entries arbitrary: obj) (simp_all add: defineProperty_names)

lemma withServices_additive:
  assumes "withServices entries context h = (Inr (), context2, h2)"
  shows "fst ` set (existing_services context2) =
     fst ` set (existing_services context) \<union> entry_name ` set entries"
proof -
  from assms obtain instances provider copied h1 where
    sp: "spread (existing_services context) h1 = (Inr copied, h2)" and
    c2: "existing_services context2 = define_getters entries instances provider copied"
    by (auto simp: withServices_def getServiceInstances_def getServiceProvider_def Let_def
        existing_services_storage existing_services_def
        split: option.splits sum.splits prod.splits)
  from spread_keeps_names [OF sp] have "fst ` set copied = fst ` set (existing_services context)"
    by (metis list.set_map)
  with c2 show ?thesis
    by (simp add: define_getters_names)
qed

lemma read_service_accessor:
  "map_of obj nm = Some (Accessor e a p) \<Longrightarrow>
   read_service obj nm h =
     (map_sum id Some (fst (resolveServiceInternal (CatalogId e) a p h)),
      snd (resolveServiceInternal (CatalogId e) a p h))"
  by (simp add: read_service_def get_property_def split: prod.splits sum.splits)

lemma read_service_absent:
  "map_of obj nm = None \<Longrightarrow> read_service obj nm h = (Inr None, h)"
  by (simp add: read_service_def)

text \<open>
  The surface enumerates its properties as an object does: the names that are array
  indices first, in numeric order, then the other names in the order of their definition.
  A second \<^verbatim>\<open>withServices\<close> reads the getters of the first in that order.
\<close>

lemma define_getters_enumeration_order:
  "map fst
     (define_getters
        [catalog_entry ''b'', catalog_entry ''10'', catalog_entry ''9'', catalog_entry ''a'',
         catalog_entry ''01'', catalog_entry ''b''] 0 0 ([] :: nat services_object)) =
     [''9'', ''10'', ''b'', ''a'', ''01'']"
  by (simp add: property_defs catalog_entry_def named_entry_def serviceOf_def)

lemma second_withServices_reads_in_enumeration_order:
  "calls
     (snd (snd
        (withServices_chain [[catalog_entry ''b'', catalog_entry ''2'', catalog_entry ''1''], []]
           (withServiceProvider 0 (empty_context :: nat RequestContext))
           (provide_at 0 (CatalogId (catalog_entry ''b'')) counter_factory
              (provide_at 0 (CatalogId (catalog_entry ''2'')) counter_factory
                 (provide_at 0 (CatalogId (catalog_entry ''1'')) counter_factory
                    (initial_runtime 0))))))) =
     [(0, ''b''), (0, ''2''), (0, ''1'')]"
  by (simp add: adapter_defs run_defs)

section \<open>The tests of the repository, run on the model\<close>

lemmas test_defs = request_with_services_def read_service_def adapter_defs run_defs posts_route_def

lemma test_provides_and_retrieves:
  "getFactory (provide (RouteId (posts_route ''ANY'') ''myService'') f (new_ServiceProvider None))
     (posts_route ''ANY'') ''myService'' = Some f"
  by (simp add: run_defs)

lemma test_returns_undefined_for_non_existent:
  "getFactory (new_ServiceProvider None) (posts_route ''ANY'') ''nonExistent'' = None"
  by (simp add: run_defs)

lemma test_overwrites_when_provided_again:
  "getFactory
     (provide (RouteId (posts_route ''ANY'') ''myService'') g
        (provide (RouteId (posts_route ''ANY'') ''myService'') f (new_ServiceProvider None)))
     (posts_route ''ANY'') ''myService'' = Some g"
  by (simp add: run_defs)

lemma test_works_with_provide:
  "getFactory
     (provide (CatalogId (the (own_entries (defineCatalog [(''myService'', serviceOf)]) ''myService''))) f
        (new_ServiceProvider (Some (defineCatalog [(''myService'', serviceOf)]))))
     any_route ''myService'' = Some f"
  by (simp add: run_defs defineCatalog_def Object_keys_def assign_entry_def empty_object_def)

lemma test_lazily_initializes:
  "calls (snd (snd (withServices [catalog_entry ''myService'']
       (withServiceProvider 0 empty_context)
       (provide_at 0 (CatalogId (catalog_entry ''myService'')) counter_factory
          (initial_runtime 0))))) = []
   \<and> fst (request_with_services 0 [catalog_entry ''myService''] ''myService''
       (provide_at 0 (CatalogId (catalog_entry ''myService'')) counter_factory
          (initial_runtime 0))) = Inr (Some 1)"
  by (simp add: test_defs)

lemma test_throws_when_not_registered:
  "fst (request_with_services 0 [catalog_entry ''missingService''] ''missingService''
       (initial_runtime (0::nat) :: (nat, nat) runtime)) =
     Inl (Error (not_registered_message ''missingService''))"
  by (simp add: test_defs)

lemma test_isolates_services_between_requests:
  "fst (request_with_services 0 [catalog_entry ''counter''] ''counter''
       (provide_at 0 (CatalogId (catalog_entry ''counter'')) counter_factory (initial_runtime 0))) =
     Inr (Some 1)
   \<and> fst (request_with_services 0 [catalog_entry ''counter''] ''counter''
       (snd (request_with_services 0 [catalog_entry ''counter''] ''counter''
          (provide_at 0 (CatalogId (catalog_entry ''counter'')) counter_factory
             (initial_runtime 0))))) = Inr (Some 2)
   \<and> fst (request_with_services 0 [catalog_entry ''counter''] ''counter''
       (snd (request_with_services 0 [catalog_entry ''counter''] ''counter''
          (snd (request_with_services 0 [catalog_entry ''counter''] ''counter''
             (provide_at 0 (CatalogId (catalog_entry ''counter'')) counter_factory
                (initial_runtime 0))))))) = Inr (Some 3)"
  by (simp add: test_defs)

lemma test_same_instance_for_multiple_calls:
  "fst (resolveService (CatalogId (catalog_entry ''counter''))
      (withServiceProvider 0 empty_context)
      (provide_at 0 (CatalogId (catalog_entry ''counter'')) counter_factory (initial_runtime 0))) =
     Inr 1
   \<and> (case resolveService (CatalogId (catalog_entry ''counter''))
      (withServiceProvider 0 empty_context)
      (provide_at 0 (CatalogId (catalog_entry ''counter'')) counter_factory (initial_runtime 0)) of
       (r1, c1, h1) \<Rightarrow>
         (case resolveService (CatalogId (catalog_entry ''counter'')) c1 h1 of
            (r2, c2, h2) \<Rightarrow>
              (case resolveService (CatalogId (catalog_entry ''counter'')) c2 h2 of
                 (r3, c3, h3) \<Rightarrow> r2 = Inr 1 \<and> r3 = Inr 1 \<and> world h3 = 1)))"
  by (simp add: resolveService_def test_defs)

end
